theory Spec2Isabelle
  imports Complex_Main "HOL-Library.Sublist"
begin

section \<open>The weight feed: services/serialService.js\<close>

text \<open>
  The class \<open>SerialService\<close> is embedded as a record of its fields together with the
  part of the runtime that its callbacks depend on (opened serial ports, pending
  callbacks, the messages handed to the WebSocket clients, the clock). Every method is a
  function from the state to the new state. JavaScript numbers are binary64 values,
  and the arithmetic of the code is rounded as the runtime rounds it.
\<close>

subsection \<open>Binary64 arithmetic\<close>

text \<open>
  A JavaScript number is an IEEE 754 binary64 value. It is modelled by the real number
  it denotes, and every arithmetic operation of the code by the exact operation followed
  by \<open>fl\<close>, the rounding to the nearest binary64 value, ties to even: \<open>exponent\<close> is
  the binary exponent of the value, held between \<open>-1022\<close> (the subnormal range) and
  1023, \<open>ulp\<close> the distance between neighbouring values at that exponent, with 52
  fraction bits. Where the code would reach \<open>Infinity\<close> the model has a number not
  below \<open>2 ^ 1024\<close>; the service compares such a value with 200000 only.
\<close>

fun exp_up :: "nat \<Rightarrow> real \<Rightarrow> int" where
  "exp_up 0 x = 0"
| "exp_up (Suc n) x = (if x < 2 then 0 else exp_up n (x / 2) + 1)"

fun exp_down :: "nat \<Rightarrow> real \<Rightarrow> int" where
  "exp_down 0 x = 0"
| "exp_down (Suc n) x = (if 1 \<le> x then 0 else exp_down n (x * 2) - 1)"

definition exponent :: "real \<Rightarrow> int" where
  "exponent x = (if 1 \<le> \<bar>x\<bar> then exp_up 1023 \<bar>x\<bar> else exp_down 1022 \<bar>x\<bar>)"

definition pow2 :: "int \<Rightarrow> real" where
  "pow2 e = (if 0 \<le> e then 2 ^ nat e else 1 / 2 ^ nat (- e))"

definition ulp :: "real \<Rightarrow> real" where
  "ulp x = pow2 (exponent x - 52)"

definition round_ties_even :: "real \<Rightarrow> int" where
  "round_ties_even y =
     (let f = \<lfloor>y\<rfloor>; r = y - of_int f
      in if r < 1 / 2 then f else if 1 / 2 < r then f + 1 else if even f then f else f + 1)"

definition fl :: "real \<Rightarrow> real" where
  "fl x = of_int (round_ties_even (x / ulp x)) * ulp x"

definition fadd :: "real \<Rightarrow> real \<Rightarrow> real" where
  "fadd a b = fl (a + b)"

definition fsub :: "real \<Rightarrow> real \<Rightarrow> real" where
  "fsub a b = fl (a - b)"

definition fmul :: "real \<Rightarrow> real \<Rightarrow> real" where
  "fmul a b = fl (a * b)"

definition fdiv :: "real \<Rightarrow> real \<Rightarrow> real" where
  "fdiv a b = fl (a / b)"

subsection \<open>Messages\<close>

datatype ws_msg =
    WeightMsg (msg_weight: real) (msg_stable: bool) (msg_stableWeight: real)
              (msg_simulation: bool) (msg_timestamp: nat)
  | StatusMsg (msg_connected: bool) (msg_status_simulation: bool)

subsection \<open>State\<close>

record serial_service =
  port :: "nat option"
  parser :: "nat option"
  currentWeight :: real
  isConnected :: bool
  isSimulation :: bool
  portPath :: "string option"
  baudRate :: int
  wsClients :: "nat list"
  weightBuffer :: "real list"
  stableWeight :: real
  simInterval :: "nat option"
  reconnectTimer :: "nat option"
  reconnectActive :: bool
  \<comment> \<open>the runtime around the object\<close>
  simBase :: real
  pendingOpens :: "nat list"
  livePorts :: "nat list"
  closeRequested :: "nat list"
  pendingPolls :: "string option list"
  notOpenClients :: "nat list"
  outbox :: "(nat \<times> ws_msg) list"
  nextId :: nat
  clock :: nat

text \<open>
  \<open>simBase\<close> is the variable \<open>base\<close> captured by the simulation timer;
  \<open>pendingOpens\<close> holds the \<open>SerialPort\<close> objects whose \<open>open\<close> callback has not run
  yet; \<open>livePorts\<close> those that opened and carry the data, error and close listeners;
  \<open>closeRequested\<close> those on which \<open>close()\<close> was called; \<open>pendingPolls\<close> the
  outstanding \<open>SerialPort.list()\<close> queries with the path they were asked for;
  \<open>notOpenClients\<close> the sockets whose \<open>readyState\<close> is not 1; \<open>outbox\<close> every
  \<open>send\<close> on a client socket, in order; \<open>nextId\<close> the next fresh object identity;
  \<open>clock\<close> what \<open>new Date()\<close> reads.
\<close>

definition constructor :: serial_service where
  "constructor =
     \<lparr> port = None, parser = None, currentWeight = 0, isConnected = False,
       isSimulation = False, portPath = None, baudRate = 9600, wsClients = [],
       weightBuffer = [], stableWeight = 0, simInterval = None, reconnectTimer = None,
       reconnectActive = False,
       simBase = 0, pendingOpens = [], livePorts = [], closeRequested = [],
       pendingPolls = [], notOpenClients = [], outbox = [], nextId = 0, clock = 0 \<rparr>"

subsection \<open>Broadcasting\<close>

definition readyState :: "serial_service \<Rightarrow> nat \<Rightarrow> nat" where
  "readyState s c = (if c \<in> set (notOpenClients s) then 3 else 1)"

definition send_all :: "serial_service \<Rightarrow> ws_msg \<Rightarrow> serial_service" where
  "send_all s m =
     s\<lparr>outbox := outbox s @ map (\<lambda>c. (c, m)) (filter (\<lambda>c. readyState s c = 1) (wsClients s))\<rparr>"

definition broadcastWeight :: "serial_service \<Rightarrow> ws_msg \<Rightarrow> serial_service" where
  "broadcastWeight s dat = send_all s dat"

definition broadcastStatus :: "serial_service \<Rightarrow> serial_service" where
  "broadcastStatus s = send_all s (StatusMsg (isConnected s) (isSimulation s))"

definition subscribe_msg :: "serial_service \<Rightarrow> ws_msg" where
  "subscribe_msg s =
     WeightMsg (currentWeight s) False (stableWeight s) (isSimulation s) (clock s)"

definition addWSClient :: "serial_service \<Rightarrow> nat \<Rightarrow> serial_service" where
  "addWSClient s ws =
     s\<lparr>wsClients := (if ws \<in> set (wsClients s) then wsClients s else wsClients s @ [ws]),
       outbox := outbox s @ [(ws, subscribe_msg s)]\<rparr>"

definition ws_close :: "serial_service \<Rightarrow> nat \<Rightarrow> serial_service" where
  "ws_close s ws =
     s\<lparr>wsClients := removeAll ws (wsClients s),
       notOpenClients := (if ws \<in> set (notOpenClients s) then notOpenClients s
                          else notOpenClients s @ [ws])\<rparr>"

subsection \<open>The stability filter\<close>

definition js_round :: "real \<Rightarrow> int" where
  "js_round x = \<lfloor>x + 1 / 2\<rfloor>"

definition push_shift :: "real list \<Rightarrow> real \<Rightarrow> real list" where
  "push_shift buf w = (let b = buf @ [w] in if length b > 5 then tl b else b)"

definition buffer_avg :: "real list \<Rightarrow> real" where
  "buffer_avg buf = fdiv (foldl (\<lambda>a b. fadd a b) 0 buf) (real (length buf))"

definition buffer_isStable :: "real list \<Rightarrow> bool" where
  "buffer_isStable buf = list_all (\<lambda>w. \<bar>fsub w (buffer_avg buf)\<bar> < 5) buf"

definition ingest :: "serial_service \<Rightarrow> real \<Rightarrow> serial_service" where
  "ingest s w =
     (let buf = push_shift (weightBuffer s) w;
          avg = buffer_avg buf;
          isStable = buffer_isStable buf
      in s\<lparr>currentWeight := w, weightBuffer := buf,
           stableWeight := (if isStable \<and> length buf = 5 then of_int (js_round avg)
                            else stableWeight s)\<rparr>)"

definition weight_update :: "serial_service \<Rightarrow> real \<Rightarrow> ws_msg" where
  "weight_update s w =
     (let s' = ingest s w
      in WeightMsg (currentWeight s') (buffer_isStable (weightBuffer s'))
           (stableWeight s') (isSimulation s') (clock s'))"

definition updateWeight :: "serial_service \<Rightarrow> real \<Rightarrow> serial_service" where
  "updateWeight s w = broadcastWeight (ingest s w) (weight_update s w)"

text \<open>
  \<open>ingest\<close> is lines 174 to 180 of \<open>updateWeight\<close> (the mutation of the object),
  \<open>weight_update\<close> the object literal of lines 182 to 188, whose \<open>stable\<close> field is the
  local \<open>isStable\<close>, and \<open>updateWeight\<close> the whole method. \<open>Math.abs\<close> and
  \<open>Math.round\<close> are exact on a binary64 value: the latter is the nearest integer, a
  tie going up.
\<close>

subsection \<open>The arithmetic mean, as the specification words it\<close>

definition mean :: "real list \<Rightarrow> real" where
  "mean xs = sum_list xs / real (length xs)"

subsection \<open>Parsing a line of the instrument\<close>

text \<open>
  A line is a list of characters. \<open>regex_match\<close> is
  \<^verbatim>\<open>cleaned.match(/[\+\-]?(\d+\.?\d*)/)\<close> and returns capture group 1 of the leftmost
  match: a match starts at a sign directly followed by a digit, or at a digit, and the
  group is the maximal run of digits, an optional dot and the digits after it. The sign
  is matched outside the group. \<open>parseFloat\<close> is applied to such a group only, where its
  value is the binary64 value nearest to the decimal number written there. \<open>trim\<close>
  removes the ASCII white space at both ends.
\<close>

definition isDigit :: "char \<Rightarrow> bool" where
  "isDigit c = (48 \<le> (of_char c :: nat) \<and> (of_char c :: nat) \<le> 57)"

definition isSign :: "char \<Rightarrow> bool" where
  "isSign c = (c = CHR ''+'' \<or> c = CHR ''-'')"

definition isSpace :: "char \<Rightarrow> bool" where
  "isSpace c = ((of_char c :: nat) \<in> {9, 10, 11, 12, 13, 32})"

definition trim :: "string \<Rightarrow> string" where
  "trim s = rev (dropWhile isSpace (rev (dropWhile isSpace s)))"

definition group1 :: "string \<Rightarrow> string" where
  "group1 s =
     (let ds = takeWhile isDigit s
      in case dropWhile isDigit s of
           [] \<Rightarrow> ds
         | c # cs \<Rightarrow> if c = CHR ''.'' then ds @ [c] @ takeWhile isDigit cs else ds)"

fun regex_match :: "string \<Rightarrow> string option" where
  "regex_match [] = None"
| "regex_match (c # cs) =
     (if isSign c \<and> (case cs of [] \<Rightarrow> False | d # _ \<Rightarrow> isDigit d) then Some (group1 cs)
      else if isDigit c then Some (group1 (c # cs))
      else regex_match cs)"

definition digits_value :: "string \<Rightarrow> nat" where
  "digits_value ds = foldl (\<lambda>a c. 10 * a + (of_char c - 48)) 0 ds"

definition parseFloat :: "string \<Rightarrow> real" where
  "parseFloat g =
     (let ip = takeWhile isDigit g;
          fp = (case dropWhile isDigit g of
                  [] \<Rightarrow> []
                | c # cs \<Rightarrow> if c = CHR ''.'' then takeWhile isDigit cs else [])
      in fl (real (digits_value ip) + real (digits_value fp) / 10 ^ length fp))"

definition parseWeight :: "serial_service \<Rightarrow> string \<Rightarrow> serial_service" where
  "parseWeight s dat =
     (let cleaned = trim dat
      in case regex_match cleaned of
           None \<Rightarrow> s
         | Some g \<Rightarrow>
             (let w = parseFloat g
              in if w \<ge> 0 \<and> w < 200000 then updateWeight s w else s))"

subsection \<open>Simulation\<close>

definition stopSimulation :: "serial_service \<Rightarrow> serial_service" where
  "stopSimulation s = (case simInterval s of None \<Rightarrow> s | Some _ \<Rightarrow> s\<lparr>simInterval := None\<rparr>)"

definition startSimulationIfNeeded :: "serial_service \<Rightarrow> serial_service" where
  "startSimulationIfNeeded s =
     (case simInterval s of
        Some _ \<Rightarrow> s
      | None \<Rightarrow> s\<lparr>simBase := 39170, simInterval := Some (nextId s), nextId := Suc (nextId s)\<rparr>)"

text \<open>
  One firing of the timer callback of \<open>_startSimulationIfNeeded\<close>; \<open>r\<close> is the value of
  \<open>Math.random()\<close>, in \<open>[0, 1)\<close>.
\<close>

definition sim_tick :: "serial_service \<Rightarrow> real \<Rightarrow> serial_service" where
  "sim_tick s r =
     (if isConnected s then stopSimulation s
      else (let noise = \<lfloor>fsub (fmul r 20) 10\<rfloor>;
                base = max 0 (fadd (simBase s) (of_int noise))
            in updateWeight (s\<lparr>simBase := base\<rparr>) base))"

subsection \<open>Connection manager\<close>

definition stopReconnectLoop :: "serial_service \<Rightarrow> serial_service" where
  "stopReconnectLoop s =
     (case reconnectTimer s of None \<Rightarrow> s | Some _ \<Rightarrow> s\<lparr>reconnectTimer := None\<rparr>)"

definition startReconnectLoop :: "serial_service \<Rightarrow> serial_service" where
  "startReconnectLoop s =
     (case reconnectTimer s of
        Some _ \<Rightarrow> s
      | None \<Rightarrow> s\<lparr>reconnectTimer := Some (nextId s), nextId := Suc (nextId s)\<rparr>)"

definition fall_back :: "serial_service \<Rightarrow> serial_service" where
  "fall_back s =
     startReconnectLoop (startSimulationIfNeeded (s\<lparr>isConnected := False, isSimulation := True\<rparr>))"

text \<open>
  \<open>_tryConnect\<close>. \<open>throws\<close> says whether constructing, piping or opening the
  \<open>SerialPort\<close> raises synchronously (the \<open>catch\<close> branch); otherwise the new port waits
  for its \<open>open\<close> callback.
\<close>

definition tryConnect :: "serial_service \<Rightarrow> bool \<Rightarrow> serial_service" where
  "tryConnect s throws =
     (if reconnectActive s then s
      else (let s1 = s\<lparr>reconnectActive := True\<rparr>
            in if throws then fall_back (s1\<lparr>reconnectActive := False\<rparr>)
               else s1\<lparr>pendingOpens := pendingOpens s1 @ [nextId s1],
                       nextId := Suc (nextId s1)\<rparr>))"

text \<open>The callback handed to \<open>sp.open\<close>, for the port \<open>sp\<close> with error \<open>err\<close>.\<close>

definition open_callback :: "serial_service \<Rightarrow> nat \<Rightarrow> string option \<Rightarrow> serial_service" where
  "open_callback s sp err =
     (let s1 = s\<lparr>reconnectActive := False, pendingOpens := remove1 sp (pendingOpens s)\<rparr>
      in case err of
           Some _ \<Rightarrow> fall_back s1
         | None \<Rightarrow>
             broadcastStatus (stopReconnectLoop (stopSimulation
               (s1\<lparr>port := Some sp, parser := Some sp, isConnected := True,
                    isSimulation := False, livePorts := livePorts s1 @ [sp]\<rparr>))))"

definition onPortLost :: "serial_service \<Rightarrow> serial_service" where
  "onPortLost s =
     startReconnectLoop (startSimulationIfNeeded (broadcastStatus
       (s\<lparr>isConnected := False, isSimulation := True, port := None, parser := None\<rparr>)))"

text \<open>
  The two entry points; \<open>baud\<close> is the value of \<open>parseInt(baudRate)\<close>. In
  \<open>reconnect\<close> a port that is held and open is asked to close, which the port answers
  later with its close event.
\<close>

definition initialize :: "serial_service \<Rightarrow> string \<Rightarrow> int \<Rightarrow> bool \<Rightarrow> serial_service" where
  "initialize s path baud throws = tryConnect (s\<lparr>portPath := Some path, baudRate := baud\<rparr>) throws"

definition reconnect :: "serial_service \<Rightarrow> string \<Rightarrow> int \<Rightarrow> bool \<Rightarrow> serial_service" where
  "reconnect s path baud throws =
     (let s1 = s\<lparr>portPath := Some path, baudRate := baud\<rparr>;
          s2 = (case port s1 of
                  None \<Rightarrow> s1
                | Some p \<Rightarrow> if p \<in> set (livePorts s1)
                            then s1\<lparr>closeRequested := closeRequested s1 @ [p]\<rparr> else s1);
          s3 = s2\<lparr>port := None, parser := None\<rparr>
      in tryConnect (stopReconnectLoop (stopSimulation s3)) throws)"

definition toLowerCase :: "string \<Rightarrow> string" where
  "toLowerCase str =
     map (\<lambda>c. if 65 \<le> (of_char c :: nat) \<and> (of_char c :: nat) \<le> 90
               then char_of ((of_char c :: nat) + 32) else c) str"

text \<open>
  \<open>_isPortAvailable\<close>: \<open>ports\<close> is the result of \<open>SerialPort.list()\<close> (the paths; \<open>None\<close>
  when it rejects). With no configured path the comparison raises inside \<open>some\<close> or
  finds nothing, and both give \<open>false\<close>.
\<close>

definition isPortAvailable :: "string list option \<Rightarrow> string option \<Rightarrow> bool" where
  "isPortAvailable ports path =
     (case ports of
        None \<Rightarrow> False
      | Some ps \<Rightarrow>
          (case path of
             None \<Rightarrow> False
           | Some pp \<Rightarrow> list_ex (\<lambda>p. p = pp \<or> toLowerCase p = toLowerCase pp) ps))"

text \<open>
  The reconnect timer callback is asynchronous: \<open>poll_tick\<close> runs up to the
  \<open>await\<close>, \<open>poll_result\<close> from there when the port list arrives.
\<close>

definition poll_tick :: "serial_service \<Rightarrow> serial_service" where
  "poll_tick s =
     (if isConnected s then stopReconnectLoop s
      else s\<lparr>pendingPolls := pendingPolls s @ [portPath s]\<rparr>)"

definition poll_result :: "serial_service \<Rightarrow> string list option \<Rightarrow> bool \<Rightarrow> serial_service" where
  "poll_result s ports throws =
     (case pendingPolls s of
        [] \<Rightarrow> s
      | p # ps \<Rightarrow>
          (let s1 = s\<lparr>pendingPolls := ps\<rparr>
           in if isPortAvailable ports p then tryConnect s1 throws else s1))"

subsection \<open>The event loop\<close>

text \<open>
  Everything that can call into the service: the two entry points, the callbacks of
  ports, timers and sockets, and the passing of time. An event that cannot happen in
  the state (a callback of an object that does not exist, a cleared timer) gives
  \<open>None\<close>.
\<close>

datatype event =
    Initialize string int bool
  | Reconnect string int bool
  | OpenDone nat "string option"
  | PortError nat
  | PortClose nat
  | PortData nat string
  | SimTick nat real
  | PollTick nat
  | PollResult "string list option" bool
  | WsConnect nat
  | WsClose nat
  | Elapse nat

fun step :: "serial_service \<Rightarrow> event \<Rightarrow> serial_service option" where
  "step s (Initialize path baud throws) = Some (initialize s path baud throws)"
| "step s (Reconnect path baud throws) = Some (reconnect s path baud throws)"
| "step s (OpenDone sp err) =
     (if sp \<in> set (pendingOpens s) then Some (open_callback s sp err) else None)"
| "step s (PortError sp) =
     (if sp \<in> set (livePorts s) then Some (onPortLost s) else None)"
| "step s (PortClose sp) =
     (if sp \<in> set (livePorts s)
      then Some (onPortLost (s\<lparr>livePorts := removeAll sp (livePorts s)\<rparr>)) else None)"
| "step s (PortData sp line) =
     (if sp \<in> set (livePorts s) then Some (parseWeight s line) else None)"
| "step s (SimTick t r) =
     (if simInterval s = Some t \<and> 0 \<le> r \<and> r < 1 then Some (sim_tick s r) else None)"
| "step s (PollTick t) =
     (if reconnectTimer s = Some t then Some (poll_tick s) else None)"
| "step s (PollResult ports throws) =
     (if pendingPolls s \<noteq> [] then Some (poll_result s ports throws) else None)"
| "step s (WsConnect ws) =
     (if ws \<notin> set (wsClients s) \<and> ws \<notin> set (notOpenClients s)
      then Some (addWSClient s ws) else None)"
| "step s (WsClose ws) =
     (if ws \<in> set (wsClients s) then Some (ws_close s ws) else None)"
| "step s (Elapse d) = Some (s\<lparr>clock := clock s + d\<rparr>)"

fun run :: "serial_service \<Rightarrow> event list \<Rightarrow> serial_service option" where
  "run s [] = Some s"
| "run s (e # es) = (case step s e of None \<Rightarrow> None | Some s' \<Rightarrow> run s' es)"

definition realActive :: "serial_service \<Rightarrow> bool" where
  "realActive s = (isConnected s \<and> (case port s of None \<Rightarrow> False | Some p \<Rightarrow> p \<in> set (livePorts s)))"

definition simActive :: "serial_service \<Rightarrow> bool" where
  "simActive s = (simInterval s \<noteq> None)"

section \<open>The print dispatcher: services/printerService.js\<close>

text \<open>
  Buffers and strings are byte lists. A promise is fulfilled, rejected with the message
  of its \<open>Error\<close>, or never settled. A TCP socket is driven by the events the
  runtime emits on it, in order; the handlers the code registers are folded over that
  list. A destroyed socket emits nothing more that a handler here listens to except its
  close, and a settled promise keeps its first outcome.
\<close>

type_synonym bytes = string

datatype 'a promise = Fulfilled 'a | Rejected string | Pending

datatype sock_event = Connect | WriteDone | Close | Error string | Timeout

record socket =
  sock_timeout :: "nat option"
  sock_written :: "bytes list"
  sock_ended :: bool
  sock_destroyed :: bool

definition new_Socket :: socket where
  "new_Socket = \<lparr>sock_timeout = None, sock_written = [], sock_ended = False, sock_destroyed = False\<rparr>"

definition settle :: "'a promise \<Rightarrow> 'a promise \<Rightarrow> 'a promise" where
  "settle p v = (case p of Pending \<Rightarrow> v | _ \<Rightarrow> p)"

fun show_nat :: "nat \<Rightarrow> string" where
  "show_nat n = (if n < 10 then [char_of (48 + n)] else show_nat (n div 10) @ [char_of (48 + n mod 10)])"

subsection \<open>Sending a buffer to port 9100\<close>

fun send_handler :: "bytes \<Rightarrow> string \<Rightarrow> nat \<Rightarrow> unit promise \<times> socket \<Rightarrow> sock_event \<Rightarrow> unit promise \<times> socket" where
  "send_handler dat host prt (p, c) ev =
     (if sock_destroyed c then
        (case ev of Close \<Rightarrow> (settle p (Fulfilled ()), c) | _ \<Rightarrow> (p, c))
      else
        (case ev of
           Connect \<Rightarrow> (p, c\<lparr>sock_written := sock_written c @ [dat]\<rparr>)
         | WriteDone \<Rightarrow> (p, c\<lparr>sock_ended := True\<rparr>)
         | Close \<Rightarrow> (settle p (Fulfilled ()), c)
         | Error m \<Rightarrow> (settle p (Rejected (''IP Printer error: '' @ m)), c)
         | Timeout \<Rightarrow>
             (settle p (Rejected (''IP Printer timeout connecting to '' @ host @ '':'' @ show_nat prt)),
              c\<lparr>sock_destroyed := True\<rparr>)))"

definition sendRawToIPPrinter :: "bytes \<Rightarrow> string \<Rightarrow> nat \<Rightarrow> sock_event list \<Rightarrow> unit promise \<times> socket" where
  "sendRawToIPPrinter dat host prt script =
     foldl (send_handler dat host prt) (Pending, new_Socket\<lparr>sock_timeout := Some 10000\<rparr>) script"

record connection =
  conn_host :: string
  conn_port :: nat
  conn_events :: "sock_event list"
  conn_result :: "unit promise"
  conn_socket :: socket

definition connect_and_send :: "bytes \<Rightarrow> string \<Rightarrow> nat \<Rightarrow> sock_event list \<Rightarrow> connection" where
  "connect_and_send dat host prt script =
     \<lparr>conn_host = host, conn_port = prt, conn_events = script,
      conn_result = fst (sendRawToIPPrinter dat host prt script),
      conn_socket = snd (sendRawToIPPrinter dat host prt script)\<rparr>"

text \<open>
  The loop \<^verbatim>\<open>for (let i = 0; i < copies; i++) await this._sendRawToIPPrinter(...)\<close>. Each
  copy opens one socket, which receives the next script of the network; the next copy
  starts only when the promise of this one is fulfilled. The result is the outcome of
  the loop, the connections made in order, and the scripts not used.
\<close>

fun send_copies ::
  "nat \<Rightarrow> bytes \<Rightarrow> string \<Rightarrow> nat \<Rightarrow> sock_event list list
     \<Rightarrow> unit promise \<times> connection list \<times> sock_event list list" where
  "send_copies 0 dat host prt scripts = (Fulfilled (), [], scripts)"
| "send_copies (Suc n) dat host prt scripts =
     (let script = (case scripts of [] \<Rightarrow> [] | x # _ \<Rightarrow> x);
          c = connect_and_send dat host prt script
      in case conn_result c of
           Fulfilled _ \<Rightarrow>
             (case send_copies n dat host prt (tl scripts) of
                (p, conns, rest) \<Rightarrow> (p, c # conns, rest))
         | Rejected e \<Rightarrow> (Rejected e, [c], tl scripts)
         | Pending \<Rightarrow> (Pending, [c], tl scripts))"

subsection \<open>The raw control-code document\<close>

record weigh_value =
  wv_value :: "real option"
  wv_timestamp :: "nat option"

record bill =
  billNo :: real
  dateTime :: nat
  vehicleNo :: string
  material :: string
  customer :: string
  charges :: real
  grossWeight :: "weigh_value option"
  tareWeight :: "weigh_value option"
  netWeight :: "real option"
  camera1Image :: "string option"
  camera2Image :: "string option"

text \<open>
  What the JavaScript runtime supplies to \<open>_buildRawPCL\<close>: the conversion of a number
  to a string in a template literal and the three \<open>en-IN\<close> formatters of \<open>Date\<close>.
  A timestamp is a number of milliseconds; the number 0 is falsy, as is a value 0.
\<close>

record js_runtime =
  num_str :: "real \<Rightarrow> string"
  toLocaleDateString :: "nat \<Rightarrow> string"
  toLocaleTimeString :: "nat \<Rightarrow> string"
  toLocaleString :: "nat \<Rightarrow> string"

definition ESC :: char where
  "ESC = char_of (27 :: nat)"

definition CRLF :: string where
  "CRLF = [char_of (13 :: nat), char_of (10 :: nat)]"

definition rule48 :: string where
  "rule48 = concat (replicate 48 [char_of (226 :: nat), char_of (148 :: nat), char_of (128 :: nat)])"

definition value_or_dashes :: "js_runtime \<Rightarrow> real option \<Rightarrow> string" where
  "value_or_dashes js v =
     (case v of None \<Rightarrow> ''--'' | Some x \<Rightarrow> if x = 0 then ''--'' else num_str js x)"

definition weigh_value_of :: "weigh_value option \<Rightarrow> real option" where
  "weigh_value_of w = (case w of None \<Rightarrow> None | Some wv \<Rightarrow> wv_value wv)"

definition weigh_time_of :: "js_runtime \<Rightarrow> weigh_value option \<Rightarrow> string" where
  "weigh_time_of js w =
     (case w of
        None \<Rightarrow> []
      | Some wv \<Rightarrow>
          (case wv_timestamp wv of
             None \<Rightarrow> []
           | Some ts \<Rightarrow> if ts = 0 then [] else toLocaleString js ts))"

definition buildRawPCL :: "js_runtime \<Rightarrow> bill \<Rightarrow> bytes" where
  "buildRawPCL js b =
     concat
       [ ESC # ''%-12345X@PJL'' @ CRLF,
         ''@PJL ENTER LANGUAGE=PCL'' @ CRLF,
         ESC # ''E'',
         ESC # ''&l0O'',
         ESC # ''&l2A'',
         CRLF,
         ''SRI VENKADESWARA WEIGH BRIDGE'' @ CRLF,
         rule48 @ CRLF,
         ''Serial No : '' @ num_str js (billNo b) @ ''    Date: ''
            @ toLocaleDateString js (dateTime b) @ CRLF,
         ''Time      : '' @ toLocaleTimeString js (dateTime b) @ CRLF,
         rule48 @ CRLF,
         ''Vehicle No    : '' @ vehicleNo b @ CRLF,
         ''Customer Name : '' @ customer b @ CRLF,
         ''Material      : '' @ material b @ CRLF,
         ''Charge        : Rs. '' @ num_str js (charges b) @ CRLF,
         rule48 @ CRLF,
         ''Gross Weight  : '' @ value_or_dashes js (weigh_value_of (grossWeight b)) @ '' Kg'' @ CRLF,
         ''               '' @ weigh_time_of js (grossWeight b) @ CRLF,
         ''Tare Weight   : '' @ value_or_dashes js (weigh_value_of (tareWeight b)) @ '' Kg'' @ CRLF,
         ''               '' @ weigh_time_of js (tareWeight b) @ CRLF,
         rule48 @ CRLF,
         ''NET WEIGHT    : '' @ value_or_dashes js (netWeight b) @ '' Kg'' @ CRLF,
         rule48 @ CRLF,
         CRLF @ CRLF @ CRLF,
         ESC # ''E'',
         ESC # ''%-12345X'' ]"

subsection \<open>Printing over the network\<close>

record print_result =
  res_success :: bool
  res_method :: string
  res_host :: string
  res_port :: nat

text \<open>
  \<open>printViaIP\<close>. \<open>render\<close> is the run of \<open>wkhtmltopdf\<close> on the receipt followed by
  reading the file it wrote: the bytes of the PDF, or the message of the error raised.
  \<open>scripts\<close> are the events of the sockets opened, in the order they are opened.
  Whatever is raised inside the \<open>try\<close> block, by the renderer or by a copy on its way
  to the printer, is caught by the one \<open>catch\<close>. The temporary files and the console
  are left out.
\<close>

definition raw_fallback ::
  "js_runtime \<Rightarrow> bill \<Rightarrow> string \<Rightarrow> nat \<Rightarrow> int \<Rightarrow> connection list \<Rightarrow> sock_event list list
     \<Rightarrow> print_result promise \<times> connection list" where
  "raw_fallback js b host prt copies conns scripts =
     (let rawData = buildRawPCL js b
      in case send_copies (nat copies) rawData host prt scripts of
           (Fulfilled _, conns', _) \<Rightarrow>
             (Fulfilled \<lparr>res_success = True, res_method = ''ip_raw'', res_host = host, res_port = prt\<rparr>,
              conns @ conns')
         | (Rejected e, conns', _) \<Rightarrow> (Rejected e, conns @ conns')
         | (Pending, conns', _) \<Rightarrow> (Pending, conns @ conns'))"

definition printViaIP ::
  "js_runtime \<Rightarrow> (string \<Rightarrow> string + bytes) \<Rightarrow> string \<Rightarrow> bill \<Rightarrow> string \<Rightarrow> nat \<Rightarrow> int
     \<Rightarrow> sock_event list list \<Rightarrow> print_result promise \<times> connection list" where
  "printViaIP js render html b host prt copies scripts =
     (case render html of
        Inl pdfErr \<Rightarrow> raw_fallback js b host prt copies [] scripts
      | Inr pdf \<Rightarrow>
          (case send_copies (nat copies) pdf host prt scripts of
             (Fulfilled _, conns, _) \<Rightarrow>
               (Fulfilled \<lparr>res_success = True, res_method = ''ip_pdf'', res_host = host, res_port = prt\<rparr>,
                conns)
           | (Rejected pdfErr, conns, rest) \<Rightarrow> raw_fallback js b host prt copies conns rest
           | (Pending, conns, _) \<Rightarrow> (Pending, conns)))"

subsection \<open>The reachability probe\<close>

record probe_result =
  reachable :: bool
  probe_host :: string
  probe_port :: nat
  probe_error :: "string option"

fun probe_handler ::
  "string \<Rightarrow> nat \<Rightarrow> probe_result promise \<times> socket \<Rightarrow> sock_event \<Rightarrow> probe_result promise \<times> socket" where
  "probe_handler host prt (p, c) ev =
     (if sock_destroyed c then (p, c)
      else
        (case ev of
           Connect \<Rightarrow>
             (settle p (Fulfilled \<lparr>reachable = True, probe_host = host, probe_port = prt,
                                   probe_error = None\<rparr>),
              c\<lparr>sock_destroyed := True\<rparr>)
         | Error m \<Rightarrow>
             (settle p (Fulfilled \<lparr>reachable = False, probe_host = host, probe_port = prt,
                                   probe_error = Some m\<rparr>), c)
         | Timeout \<Rightarrow>
             (settle p (Fulfilled \<lparr>reachable = False, probe_host = host, probe_port = prt,
                                   probe_error = Some ''Timeout''\<rparr>),
              c\<lparr>sock_destroyed := True\<rparr>)
         | _ \<Rightarrow> (p, c)))"

text \<open>
  \<open>testIPPrinter\<close>. \<open>thrown\<close> is the message of the error that \<open>client.connect\<close>
  raises at once (as the runtime does for a port that is not a legal port number), or
  \<open>None\<close> when it returns and the connection is attempted: an error raised inside the
  executor rejects the promise.
\<close>

definition testIPPrinter ::
  "string \<Rightarrow> nat \<Rightarrow> string option \<Rightarrow> sock_event list \<Rightarrow> probe_result promise \<times> socket" where
  "testIPPrinter host prt thrown script =
     (case thrown of
        Some msg \<Rightarrow> (Rejected msg, new_Socket\<lparr>sock_timeout := Some 4000\<rparr>)
      | None \<Rightarrow>
          foldl (probe_handler host prt) (Pending, new_Socket\<lparr>sock_timeout := Some 4000\<rparr>) script)"

section \<open>Notions of the specification and example inputs\<close>

text \<open>
  Stability as the specification words it, with the band of 5 kilograms taken
  inclusively.
\<close>

definition spec_stable_inclusive :: "real list \<Rightarrow> bool" where
  "spec_stable_inclusive buf = (length buf = 5 \<and> list_all (\<lambda>x. \<bar>x - mean buf\<bar> \<le> 5) buf)"

text \<open>The two invariants of the connection manager.\<close>

definition feed_exclusive :: "serial_service \<Rightarrow> bool" where
  "feed_exclusive s = (isConnected s \<longrightarrow> simInterval s = None)"

definition single_attempt :: "serial_service \<Rightarrow> bool" where
  "single_attempt s = (length (pendingOpens s) \<le> 1 \<and> (reconnectActive s = (pendingOpens s \<noteq> [])))"

text \<open>A copy is delivered when its promise is fulfilled, and fails when it is rejected.\<close>

definition delivers :: "bytes \<Rightarrow> string \<Rightarrow> nat \<Rightarrow> sock_event list \<Rightarrow> bool" where
  "delivers dat host prt script = (fst (sendRawToIPPrinter dat host prt script) = Fulfilled ())"

definition fails_with :: "bytes \<Rightarrow> string \<Rightarrow> nat \<Rightarrow> sock_event list \<Rightarrow> string \<Rightarrow> bool" where
  "fails_with dat host prt script e = (fst (sendRawToIPPrinter dat host prt script) = Rejected e)"

text \<open>
  Four samples of the plateau of the specification's example, and four samples of which
  two lie exactly 5 kilograms from the mean of the window that the fifth completes.
\<close>

definition plateau_state :: serial_service where
  "plateau_state = foldl updateWeight constructor [39170, 39172, 39168, 39171]"

definition boundary_state :: serial_service where
  "boundary_state = foldl updateWeight constructor [39175, 39165, 39170, 39170]"

text \<open>
  Three windows of readings with one decimal, as lines of the instrument.
\<close>

definition decimal_window_a :: "string list" where
  "decimal_window_a = [''12.2'', ''5.2'', ''6.2'', ''6.2'', ''6.2'']"

definition decimal_window_b :: "string list" where
  "decimal_window_b = [''39166.4'', ''39172.7'', ''39167.4'', ''39166.8'', ''39165.2'']"

definition decimal_window_c :: "string list" where
  "decimal_window_c = [''39173.1'', ''39169.3'', ''39172.5'', ''39171.7'', ''39170.9'']"

text \<open>
  A session: the port is missing at startup, the simulation produces a sample, the poll
  finds the port, and the second attempt opens it.
\<close>

definition connecting_session :: "event list" where
  "connecting_session =
     [Initialize ''COM3'' 9600 False, OpenDone 0 (Some ''File not found''), SimTick 1 (1 / 2),
      PollTick 2, PollResult (Some [''COM3'']) False]"

definition connected_session :: "event list" where
  "connected_session = connecting_session @ [OpenDone 3 None]"

text \<open>A bill, a runtime, two renderers and two sockets for the printer examples.\<close>

definition example_runtime :: js_runtime where
  "example_runtime =
     \<lparr>num_str = (\<lambda>x. show_nat (nat \<lfloor>x\<rfloor>)),
      toLocaleDateString = (\<lambda>t. ''12/5/2023''),
      toLocaleTimeString = (\<lambda>t. ''5:38:38 pm''),
      toLocaleString = (\<lambda>t. ''12/5/2023, 5:38:38 pm'')\<rparr>"

definition example_bill :: bill where
  "example_bill =
     \<lparr>billNo = 4135, dateTime = 1683893318000, vehicleNo = ''TN01AB1234'', material = ''SAND'',
      customer = ''RAVI'', charges = 100,
      grossWeight = Some \<lparr>wv_value = Some 39170, wv_timestamp = Some 1683893318000\<rparr>,
      tareWeight = None, netWeight = None,
      camera1Image = Some ''/snapshots/cam1_4135.jpg'', camera2Image = None\<rparr>"

definition failing_renderer :: "string \<Rightarrow> string + bytes" where
  "failing_renderer html = Inl ''wkhtmltopdf: not found''"

definition working_renderer :: "string \<Rightarrow> string + bytes" where
  "working_renderer html = Inr (''%PDF-1.4 '' @ html)"

definition refused :: "sock_event list" where
  "refused = [Error ''connect ECONNREFUSED 192.168.1.200:9100'', Close]"

definition printed :: "sock_event list" where
  "printed = [Connect, WriteDone, Close]"

section \<open>Properties\<close>

subsection \<open>Facts about binary64 rounding\<close>

lemma pow2_powr: "pow2 e = 2 powr (of_int e)"
proof (cases "0 \<le> e")
  case True
  then have "(2::real) powr (of_int e) = 2 powr (real (nat e))" by simp
  also have "\<dots> = 2 ^ nat e" by (rule powr_realpow) simp
  finally show ?thesis using True by (simp add: pow2_def)
next
  case False
  then have "(2::real) powr (of_int e) = 2 powr (- real (nat (- e)))" by simp
  also have "\<dots> = 1 / 2 powr (real (nat (- e)))" by (simp add: powr_minus divide_inverse)
  also have "2 powr (real (nat (- e))) = (2::real) ^ nat (- e)" by (rule powr_realpow) simp
  finally show ?thesis using False by (simp add: pow2_def)
qed

lemma pow2_pos: "0 < pow2 e"
  by (simp add: pow2_powr)

lemma pow2_mono: "a \<le> b \<Longrightarrow> pow2 a \<le> pow2 b"
  by (simp add: pow2_powr)

lemma exp_up_lower: "1 \<le> x \<Longrightarrow> 0 \<le> exp_up n x \<and> 2 ^ nat (exp_up n x) \<le> x"
proof (induction n arbitrary: x)
  case 0
  then show ?case by simp
next
  case (Suc n)
  show ?case
  proof (cases "x < 2")
    case True
    with Suc.prems show ?thesis by simp
  next
    case False
    then have "1 \<le> x / 2" by simp
    from Suc.IH[OF this] have ih: "0 \<le> exp_up n (x / 2)" "2 ^ nat (exp_up n (x / 2)) \<le> x / 2"
      by simp_all
    have "nat (exp_up n (x / 2) + 1) = Suc (nat (exp_up n (x / 2)))" using ih(1) by simp
    then show ?thesis using ih False by simp
  qed
qed

lemma exp_down_le0: "exp_down n x \<le> 0"
proof (induction n arbitrary: x)
  case 0
  then show ?case by simp
next
  case (Suc n)
  from Suc.IH[of "x * 2"] show ?case by simp
qed

lemma exponent_le:
  assumes "\<bar>x\<bar> < 2 ^ Suc n"
  shows "exponent x \<le> int n"
proof (cases "1 \<le> \<bar>x\<bar>")
  case True
  from exp_up_lower[OF True, of 1023]
  have e: "0 \<le> exp_up 1023 \<bar>x\<bar>" "2 ^ nat (exp_up 1023 \<bar>x\<bar>) \<le> \<bar>x\<bar>" by simp_all
  from e(2) assms have "(2::real) ^ nat (exp_up 1023 \<bar>x\<bar>) < 2 ^ Suc n" by linarith
  then have "nat (exp_up 1023 \<bar>x\<bar>) < Suc n"
    using power_less_imp_less_exp[of "2::real" "nat (exp_up 1023 \<bar>x\<bar>)" "Suc n"] by simp
  then show ?thesis using True e(1) by (simp add: exponent_def)
next
  case False
  then show ?thesis using exp_down_le0[of 1022 "\<bar>x\<bar>"] by (simp add: exponent_def)
qed

lemma ulp_pos: "0 < ulp x"
  by (simp add: ulp_def pow2_pos)

lemma ulp_le: "\<bar>x\<bar> < 2 ^ Suc n \<Longrightarrow> ulp x \<le> pow2 (int n - 52)"
  unfolding ulp_def by (rule pow2_mono) (simp add: exponent_le)

lemma round_ties_even_err: "\<bar>of_int (round_ties_even y) - y\<bar> \<le> 1 / 2"
proof -
  have "of_int \<lfloor>y\<rfloor> \<le> y" "y < of_int \<lfloor>y\<rfloor> + 1" by linarith+
  then show ?thesis by (auto simp: round_ties_even_def Let_def)
qed

lemma round_ties_even_int [simp]: "round_ties_even (of_int k) = k"
  by (simp add: round_ties_even_def)

text \<open>The rounding moves a value by at most half the distance between neighbours.\<close>

lemma fl_err: "\<bar>fl x - x\<bar> \<le> ulp x / 2"
proof -
  let ?u = "ulp x"
  have u: "0 < ?u" by (rule ulp_pos)
  have "fl x - x = (of_int (round_ties_even (x / ?u)) - x / ?u) * ?u"
    using u by (simp add: fl_def algebra_simps)
  then have "\<bar>fl x - x\<bar> = \<bar>of_int (round_ties_even (x / ?u)) - x / ?u\<bar> * ?u"
    using u by (simp add: abs_mult)
  also have "\<dots> \<le> (1 / 2) * ?u"
    using round_ties_even_err[of "x / ?u"] u by (intro mult_right_mono) simp_all
  finally show ?thesis by simp
qed

text \<open>Every integer below \<open>2 ^ 53\<close> in magnitude is a binary64 value.\<close>

lemma fl_int:
  assumes "\<bar>k\<bar> < 2 ^ 53"
  shows "fl (of_int k) = of_int k"
proof -
  let ?e = "exponent (of_int k)"
  have "\<bar>of_int k :: real\<bar> < 2 ^ Suc 52"
  proof -
    have "\<bar>of_int k :: real\<bar> = of_int \<bar>k\<bar>" by simp
    also have "\<dots> < of_int (2 ^ 53)" using assms by (simp only: of_int_less_iff)
    finally show ?thesis by simp
  qed
  then have e: "?e \<le> 52" using exponent_le[of "of_int k" 52] by simp
  define m where "m = nat (52 - ?e)"
  have u: "ulp (of_int k) = 1 / 2 ^ m"
  proof (cases "?e = 52")
    case True
    then show ?thesis by (simp add: ulp_def pow2_def m_def)
  next
    case False
    with e have "?e - 52 < 0" by simp
    then show ?thesis by (simp add: ulp_def pow2_def m_def)
  qed
  have "of_int k / ulp (of_int k) = (of_int (k * 2 ^ m) :: real)" by (simp add: u)
  then have "round_ties_even (of_int k / ulp (of_int k)) = k * 2 ^ m"
    by (simp only: round_ties_even_int)
  then show ?thesis by (simp add: fl_def u)
qed

lemma fl_numeral [simp]:
  "numeral k < (9007199254740992::int) \<Longrightarrow> fl (numeral k) = numeral k"
  "numeral k < (9007199254740992::int) \<Longrightarrow> fl (- numeral k) = - numeral k"
  "fl 0 = 0" "fl 1 = 1" "fl (- 1) = - 1"
  using fl_int[of "numeral k"] fl_int[of "- numeral k"] fl_int[of 0] fl_int[of 1]
    fl_int[of "- 1"] by simp_all

lemma fl_close_18:
  assumes "\<bar>x\<bar> < 262144"
  shows "\<bar>fl x - x\<bar> \<le> 1 / 2 ^ 36"
proof -
  have "\<bar>x\<bar> < 2 ^ Suc 17" using assms by simp
  from ulp_le[OF this] have "ulp x \<le> 1 / 2 ^ 35" by (simp add: pow2_def)
  with fl_err[of x] show ?thesis by simp
qed

lemma fl_close_19:
  assumes "\<bar>x\<bar> < 524288"
  shows "\<bar>fl x - x\<bar> \<le> 1 / 2 ^ 35"
proof -
  have "\<bar>x\<bar> < 2 ^ Suc 18" using assms by simp
  from ulp_le[OF this] have "ulp x \<le> 1 / 2 ^ 34" by (simp add: pow2_def)
  with fl_err[of x] show ?thesis by simp
qed

text \<open>
  A value is recognised as the rounding of another from its exponent and the integer
  multiple of the unit that lies nearest.
\<close>

lemma exp_up_upper: "1 \<le> x \<Longrightarrow> x < 2 ^ Suc n \<Longrightarrow> x < 2 ^ Suc (nat (exp_up n x))"
proof (induction n arbitrary: x)
  case 0
  then show ?case by simp
next
  case (Suc n)
  show ?case
  proof (cases "x < 2")
    case True
    then show ?thesis by simp
  next
    case False
    then have one: "1 \<le> x / 2" by simp
    from Suc.prems have "x / 2 < 2 ^ Suc n" by simp
    from Suc.IH[OF one this] have ih: "x / 2 < 2 ^ Suc (nat (exp_up n (x / 2)))" .
    from exp_up_lower[OF one, of n] have "0 \<le> exp_up n (x / 2)" by simp
    then have "nat (exp_up n (x / 2) + 1) = Suc (nat (exp_up n (x / 2)))" by simp
    then show ?thesis using ih False by simp
  qed
qed

lemma exp_down_spec:
  "0 < x \<Longrightarrow> x < 1 \<Longrightarrow> 1 / 2 ^ n \<le> x \<Longrightarrow>
     exp_down n x < 0 \<and> 1 / 2 ^ nat (- exp_down n x) \<le> x \<and> x < 2 / 2 ^ nat (- exp_down n x)"
proof (induction n arbitrary: x)
  case 0
  then show ?case by simp
next
  case (Suc n)
  show ?case
  proof (cases "1 \<le> x * 2")
    case True
    then have "exp_down (Suc n) x = - 1"
      using Suc.prems by (cases n) simp_all
    then show ?thesis using True Suc.prems by simp
  next
    case False
    have pos: "0 < x * 2" and lt: "x * 2 < 1" using Suc.prems False by simp_all
    have "1 / 2 ^ n \<le> x * 2" using Suc.prems by (simp add: field_simps)
    from Suc.IH[OF pos lt this]
    have ih: "exp_down n (x * 2) < 0" "1 / 2 ^ nat (- exp_down n (x * 2)) \<le> x * 2"
      "x * 2 < 2 / 2 ^ nat (- exp_down n (x * 2))" by simp_all
    have e: "exp_down (Suc n) x = exp_down n (x * 2) - 1" using Suc.prems by simp
    have n: "nat (- (exp_down n (x * 2) - 1)) = Suc (nat (- exp_down n (x * 2)))"
      using ih(1) by simp
    show ?thesis using ih by (simp only: e n) (simp add: field_simps)
  qed
qed

lemma pow2_strict_mono: "a < b \<Longrightarrow> pow2 a < pow2 b"
  by (simp add: pow2_powr)

lemma pow2_Suc: "pow2 (e + 1) = 2 * pow2 e"
  by (simp add: pow2_powr powr_add)

lemma exponent_bounds:
  assumes "pow2 (- 1022) \<le> \<bar>x\<bar>" and "\<bar>x\<bar> < pow2 1024"
  shows "pow2 (exponent x) \<le> \<bar>x\<bar> \<and> \<bar>x\<bar> < pow2 (exponent x + 1)"
proof (cases "1 \<le> \<bar>x\<bar>")
  case True
  let ?e = "exp_up 1023 \<bar>x\<bar>"
  have up: "\<bar>x\<bar> < 2 ^ Suc 1023" using assms(2) by (simp add: pow2_def)
  from exp_up_lower[OF True, of 1023] have lo: "0 \<le> ?e" "2 ^ nat ?e \<le> \<bar>x\<bar>" by simp_all
  from exp_up_upper[OF True up] have hi: "\<bar>x\<bar> < 2 ^ Suc (nat ?e)" .
  have "nat (?e + 1) = Suc (nat ?e)" using lo(1) by simp
  then show ?thesis using True lo hi by (simp add: exponent_def pow2_def)
next
  case False
  let ?e = "exp_down 1022 \<bar>x\<bar>"
  have pos: "0 < \<bar>x\<bar>" using assms(1) pow2_pos[of "- 1022"] by linarith
  have lt: "\<bar>x\<bar> < 1" using False by simp
  have "1 / 2 ^ 1022 \<le> \<bar>x\<bar>" using assms(1) by (simp add: pow2_def)
  from exp_down_spec[OF pos lt this]
  have d: "?e < 0" "1 / 2 ^ nat (- ?e) \<le> \<bar>x\<bar>" "\<bar>x\<bar> < 2 / 2 ^ nat (- ?e)" by simp_all
  have "pow2 ?e = 1 / 2 ^ nat (- ?e)" using d(1) by (simp add: pow2_def)
  moreover have "pow2 (?e + 1) = 2 / 2 ^ nat (- ?e)" using pow2_Suc[of ?e] d(1) by (simp add: pow2_def)
  ultimately show ?thesis using False d by (simp add: exponent_def)
qed

lemma exponent_unique:
  assumes "pow2 e \<le> \<bar>x\<bar>" and "\<bar>x\<bar> < pow2 (e + 1)" and "- 1022 \<le> e" and "e \<le> 1023"
  shows "exponent x = e"
proof -
  have lo: "pow2 (- 1022) \<le> \<bar>x\<bar>" using assms(1,3) pow2_mono[of "- 1022" e] by linarith
  have hi: "\<bar>x\<bar> < pow2 1024" using assms(2,4) pow2_mono[of "e + 1" 1024] by linarith
  from exponent_bounds[OF lo hi]
  have b: "pow2 (exponent x) \<le> \<bar>x\<bar>" "\<bar>x\<bar> < pow2 (exponent x + 1)" by simp_all
  have "pow2 (exponent x) < pow2 (e + 1)" using b(1) assms(2) by linarith
  then have 1: "exponent x < e + 1" using pow2_mono[of "e + 1" "exponent x"] by (cases "exponent x < e + 1") auto
  have "pow2 e < pow2 (exponent x + 1)" using b(2) assms(1) by linarith
  then have 2: "e < exponent x + 1" using pow2_mono[of "exponent x + 1" e] by (cases "e < exponent x + 1") auto
  from 1 2 show ?thesis by simp
qed

lemma round_ties_even_near:
  assumes "\<bar>y - of_int n\<bar> < 1 / 2"
  shows "round_ties_even y = n"
proof -
  have "\<lfloor>y\<rfloor> = n \<or> \<lfloor>y\<rfloor> = n - 1" using assms by (simp add: abs_if split: if_splits) linarith+
  then show ?thesis
  proof
    assume f: "\<lfloor>y\<rfloor> = n"
    then show ?thesis using assms by (simp add: round_ties_even_def Let_def abs_if split: if_splits)
  next
    assume f: "\<lfloor>y\<rfloor> = n - 1"
    then show ?thesis using assms by (simp add: round_ties_even_def Let_def abs_if split: if_splits)
  qed
qed

lemma fl_certificate:
  assumes "pow2 e \<le> \<bar>x\<bar>" and "\<bar>x\<bar> < pow2 (e + 1)" and "- 1022 \<le> e" and "e \<le> 1023"
    and "\<bar>x / pow2 (e - 52) - of_int n\<bar> < 1 / 2" and "y = of_int n * pow2 (e - 52)"
  shows "fl x = y"
proof -
  have "exponent x = e" using assms(1-4) by (rule exponent_unique)
  then have u: "ulp x = pow2 (e - 52)" by (simp add: ulp_def)
  have "round_ties_even (x / pow2 (e - 52)) = n" using assms(5) by (rule round_ties_even_near)
  then show ?thesis by (simp add: fl_def u assms(6))
qed

lemma round_ties_even_tie:
  assumes "y = of_int f + 1 / 2"
  shows "round_ties_even y = (if even f then f else f + 1)"
proof -
  have "\<lfloor>y\<rfloor> = f" using assms by (intro floor_unique) simp_all
  then show ?thesis using assms by (simp add: round_ties_even_def Let_def)
qed

lemma fl_certificate_tie:
  assumes "pow2 e \<le> \<bar>x\<bar>" and "\<bar>x\<bar> < pow2 (e + 1)" and "- 1022 \<le> e" and "e \<le> 1023"
    and "x / pow2 (e - 52) = of_int f + 1 / 2"
    and "y = of_int (if even f then f else f + 1) * pow2 (e - 52)"
  shows "fl x = y"
proof -
  have "exponent x = e" using assms(1-4) by (rule exponent_unique)
  then have u: "ulp x = pow2 (e - 52)" by (simp add: ulp_def)
  have "round_ties_even (x / pow2 (e - 52)) = (if even f then f else f + 1)"
    using assms(5) by (rule round_ties_even_tie)
  then show ?thesis by (simp only: fl_def u assms(6))
qed

text \<open>
  On a window of five integer samples with sum \<open>S\<close>, the band test of the code on the
  rounded mean decides as the exact one: the exact distance of a sample from the mean is
  a multiple of one fifth, so it is 5, or at most 4.8, or at least 5.2.
\<close>

lemma band_int:
  fixes w S :: int
  assumes w: "0 \<le> w" "w < 200000" and S: "0 \<le> S" "S < 1000000"
  shows "(\<bar>fl (of_int w - fl (of_int S / 5))\<bar> < 5) = (\<bar>of_int w - (of_int S :: real) / 5\<bar> < 5)"
proof -
  let ?a = "(of_int S :: real) / 5"
  let ?d = "of_int w - fl ?a"
  have a: "0 \<le> ?a" "?a < 200000" using S by simp_all
  then have ea: "\<bar>fl ?a - ?a\<bar> \<le> 1 / 2 ^ 36" by (intro fl_close_18) simp
  have wr: "0 \<le> (of_int w :: real)" "(of_int w :: real) < 200000" using w by simp_all
  have "\<bar>?d\<bar> < 524288" using ea a wr by (simp add: abs_if split: if_splits)
  then have ed: "\<bar>fl ?d - ?d\<bar> \<le> 1 / 2 ^ 35" by (rule fl_close_19)
  have close: "\<bar>fl ?d - (of_int w - ?a)\<bar> \<le> 1 / 100"
    using ea ed by (simp add: abs_if split: if_splits)
  define z where "z = 5 * w - S"
  have x: "of_int w - ?a = (of_int z :: real) / 5" by (simp add: z_def)
  consider "\<bar>z\<bar> \<le> 24" | "\<bar>z\<bar> \<ge> 26" | "z = 25" | "z = - 25" by linarith
  then show ?thesis
  proof cases
    case 1
    then have "(of_int \<bar>z\<bar> :: real) \<le> of_int 24" by (simp only: of_int_le_iff)
    then have "\<bar>(of_int z :: real)\<bar> \<le> 24" by simp
    then have "\<bar>of_int w - ?a\<bar> \<le> 24 / 5" by (simp add: x)
    with close show ?thesis by (simp add: abs_if split: if_splits)
  next
    case 2
    then have "(of_int \<bar>z\<bar> :: real) \<ge> of_int 26" by (simp only: of_int_le_iff)
    then have "\<bar>(of_int z :: real)\<bar> \<ge> 26" by simp
    then have "\<bar>of_int w - ?a\<bar> \<ge> 26 / 5" by (simp add: x)
    with close show ?thesis by (simp add: abs_if split: if_splits)
  next
    case 3
    then have "(of_int S :: real) = of_int (5 * (w - 5))" by (simp only: z_def of_int_eq_iff; simp)
    then have a5: "?a = of_int (w - 5)" by simp
    have "fl (of_int (w - 5)) = (of_int (w - 5) :: real)" using w by (intro fl_int) simp
    then have fa: "fl ?a = of_int w - 5" by (simp only: a5; simp)
    have lhs: "fl (of_int w - fl ?a) = 5" by (simp only: fa; simp)
    have rhs: "of_int w - ?a = 5" by (simp only: a5; simp)
    show ?thesis by (simp only: lhs rhs; simp)
  next
    case 4
    then have "(of_int S :: real) = of_int (5 * (w + 5))" by (simp only: z_def of_int_eq_iff; simp)
    then have a5: "?a = of_int (w + 5)" by simp
    have "fl (of_int (w + 5)) = (of_int (w + 5) :: real)" using w by (intro fl_int) simp
    then have fa: "fl ?a = of_int w + 5" by (simp only: a5; simp)
    have lhs: "fl (of_int w - fl ?a) = - 5" by (simp only: fa; simp)
    have rhs: "of_int w - ?a = - 5" by (simp only: a5; simp)
    show ?thesis by (simp only: lhs rhs; simp)
  qed
qed

lemma round_mean_int:
  fixes S :: int
  assumes S: "0 \<le> S" "S < 1000000"
  shows "\<lfloor>fl (of_int S / 5) + 1 / 2\<rfloor> = round ((of_int S :: real) / 5)"
proof -
  let ?a = "(of_int S :: real) / 5"
  have a: "0 \<le> ?a" "?a < 200000" using S by simp_all
  then have ea: "\<bar>fl ?a - ?a\<bar> \<le> 1 / 2 ^ 36" by (intro fl_close_18) simp
  define q r where "q = S div 5" and "r = S mod 5"
  have S_eq: "S = 5 * q + r" and r: "0 \<le> r" "r < 5" by (simp_all add: q_def r_def)
  have a_eq: "?a = of_int q + of_int r / 5" by (simp add: S_eq)
  consider "r = 0" | "r = 1 \<or> r = 2" | "r = 3 \<or> r = 4" using r by linarith
  then show ?thesis
  proof cases
    case 1
    then have "?a = of_int q" by (simp add: a_eq)
    moreover have "fl (of_int q) = of_int q" using S by (intro fl_int) (simp add: q_def)
    ultimately show ?thesis by (simp add: round_def)
  next
    case 2
    then have lo: "of_int q + 7 / 10 \<le> ?a + 1 / 2" and hi: "?a + 1 / 2 \<le> of_int q + 9 / 10"
      by (auto simp: a_eq)
    have "\<lfloor>?a + 1 / 2\<rfloor> = q" using lo hi by (intro floor_unique) simp_all
    moreover have "\<lfloor>fl ?a + 1 / 2\<rfloor> = q"
      using lo hi ea by (intro floor_unique) (simp_all add: abs_if split: if_splits)
    ultimately show ?thesis by (simp add: round_def)
  next
    case 3
    then have lo: "of_int q + 11 / 10 \<le> ?a + 1 / 2" and hi: "?a + 1 / 2 \<le> of_int q + 13 / 10"
      by (auto simp: a_eq)
    have "\<lfloor>?a + 1 / 2\<rfloor> = q + 1" using lo hi by (intro floor_unique) simp_all
    moreover have "\<lfloor>fl ?a + 1 / 2\<rfloor> = q + 1"
      using lo hi ea by (intro floor_unique) (simp_all add: abs_if split: if_splits)
    ultimately show ?thesis by (simp add: round_def)
  qed
qed

lemma foldl_fl_sum:
  fixes a :: int
  assumes "0 \<le> a" and "\<forall>k \<in> set ks. 0 \<le> k \<and> k < 200000"
    and "a + 200000 * int (length ks) < 2 ^ 53"
  shows "foldl (\<lambda>x y. fadd x y) (of_int a) (map of_int ks) = of_int (a + sum_list ks)"
  using assms
proof (induction ks arbitrary: a)
  case Nil
  then show ?case by simp
next
  case (Cons k ks)
  from Cons.prems have k: "0 \<le> k" "k < 200000" by simp_all
  have "fadd (of_int a) (of_int k) = of_int (a + k)"
    using fl_int[of "a + k"] Cons.prems k by (simp add: fadd_def)
  moreover have "foldl (\<lambda>x y. fadd x y) (of_int (a + k)) (map of_int ks) = of_int ((a + k) + sum_list ks)"
    using Cons.prems k by (intro Cons.IH) simp_all
  ultimately show ?case by (simp add: add.assoc)
qed

lemma sum_list_window_bounds:
  fixes ks :: "int list"
  assumes "\<forall>k \<in> set ks. 0 \<le> k \<and> k < 200000"
  shows "0 \<le> sum_list ks \<and> sum_list ks \<le> 199999 * int (length ks)"
  using assms by (induction ks) auto

lemma sum_list_of_int: "sum_list (map of_int ks) = (of_int (sum_list ks) :: real)"
  by (induction ks) simp_all

subsection \<open>Facts about the stability filter\<close>

lemma constructor_fields [simp]:
  "port constructor = None" "parser constructor = None" "currentWeight constructor = 0"
  "isConnected constructor = False" "isSimulation constructor = False"
  "portPath constructor = None" "baudRate constructor = 9600" "wsClients constructor = []"
  "weightBuffer constructor = []" "stableWeight constructor = 0"
  "simInterval constructor = None" "reconnectTimer constructor = None"
  "reconnectActive constructor = False" "simBase constructor = 0"
  "pendingOpens constructor = []" "livePorts constructor = []"
  "closeRequested constructor = []" "pendingPolls constructor = []"
  "notOpenClients constructor = []" "outbox constructor = []" "nextId constructor = 0"
  "clock constructor = 0"
  by (simp_all add: constructor_def)

lemma weightBuffer_updateWeight:
  "weightBuffer (updateWeight s w) = push_shift (weightBuffer s) w"
  by (simp add: updateWeight_def broadcastWeight_def send_all_def ingest_def Let_def)

lemma outbox_updateWeight:
  "outbox (updateWeight s w) =
     outbox s @ map (\<lambda>c. (c, weight_update s w)) (filter (\<lambda>c. readyState s c = 1) (wsClients s))"
  by (simp add: updateWeight_def broadcastWeight_def send_all_def ingest_def Let_def readyState_def)

lemma msg_stable_weight_update:
  "msg_stable (weight_update s w) = buffer_isStable (weightBuffer (updateWeight s w))"
  by (simp add: weight_update_def weightBuffer_updateWeight ingest_def Let_def)

lemma stableWeight_updateWeight:
  "stableWeight (updateWeight s w) =
     (if buffer_isStable (weightBuffer (updateWeight s w)) \<and> length (weightBuffer (updateWeight s w)) = 5
      then of_int (js_round (buffer_avg (weightBuffer (updateWeight s w))))
      else stableWeight s)"
  by (simp add: weightBuffer_updateWeight updateWeight_def broadcastWeight_def send_all_def
      ingest_def Let_def)

text \<open>A full window of integer samples in range: the code decides as the exact mean does.\<close>

lemma int_window_mean:
  assumes "length ks = 5"
  shows "mean (map of_int ks) = of_int (sum_list ks) / 5"
  using assms by (simp add: mean_def sum_list_of_int)

lemma int_window_avg:
  assumes "length ks = 5" and "\<forall>k \<in> set ks. 0 \<le> k \<and> k < 200000"
  shows "buffer_avg (map of_int ks) = fl (of_int (sum_list ks) / 5)"
proof -
  have "foldl (\<lambda>x y. fadd x y) (of_int 0) (map of_int ks) = of_int (0 + sum_list ks)"
    using assms by (intro foldl_fl_sum) simp_all
  then show ?thesis using assms by (simp add: buffer_avg_def fdiv_def)
qed

lemma int_window_stable:
  assumes "length ks = 5" and "\<forall>k \<in> set ks. 0 \<le> k \<and> k < 200000"
  shows "buffer_isStable (map of_int ks)
           = (\<forall>x \<in> set (map of_int ks). \<bar>x - mean (map of_int ks)\<bar> < 5)"
proof -
  from sum_list_window_bounds[OF assms(2)] assms(1)
  have S: "0 \<le> sum_list ks" "sum_list ks < 1000000" by simp_all
  have "\<bar>fl (of_int k - fl (of_int (sum_list ks) / 5))\<bar> < 5
          \<longleftrightarrow> \<bar>of_int k - (of_int (sum_list ks) :: real) / 5\<bar> < 5" if "k \<in> set ks" for k
    using that assms(2) S by (intro band_int) simp_all
  then show ?thesis
    by (simp add: buffer_isStable_def int_window_avg[OF assms] int_window_mean[OF assms(1)]
        fsub_def list_all_iff)
qed

lemma int_window_round:
  assumes "length ks = 5" and "\<forall>k \<in> set ks. 0 \<le> k \<and> k < 200000"
  shows "js_round (buffer_avg (map of_int ks)) = round (mean (map of_int ks))"
proof -
  from sum_list_window_bounds[OF assms(2)] assms(1)
  have S: "0 \<le> sum_list ks" "sum_list ks < 1000000" by simp_all
  show ?thesis
    by (simp add: js_round_def int_window_avg[OF assms] int_window_mean[OF assms(1)]
        round_mean_int[OF S])
qed

lemmas filter_defs = updateWeight_def broadcastWeight_def send_all_def ingest_def weight_update_def
  push_shift_def buffer_avg_def buffer_isStable_def js_round_def fadd_def fsub_def fdiv_def Let_def

lemma plateau_state_eq:
  "plateau_state =
     constructor\<lparr>currentWeight := 39171, weightBuffer := [39170, 39172, 39168, 39171]\<rparr>"
  by (simp add: plateau_state_def constructor_def filter_defs)

lemma boundary_state_eq:
  "boundary_state =
     constructor\<lparr>currentWeight := 39170, weightBuffer := [39175, 39165, 39170, 39170]\<rparr>"
  by (simp add: boundary_state_def constructor_def filter_defs)

lemma plateau_window:
  "weightBuffer (updateWeight plateau_state 39169) = map of_int [39170, 39172, 39168, 39171, 39169]"
  by (simp add: weightBuffer_updateWeight plateau_state_eq push_shift_def)

lemma boundary_window:
  "weightBuffer (updateWeight boundary_state 39170) = map of_int [39175, 39165, 39170, 39170, 39170]"
  by (simp add: weightBuffer_updateWeight boundary_state_eq push_shift_def)

text \<open>
  The very first sample after startup is already broadcast with \<open>stable = true\<close>:
  a single sample is its own mean, and the flag that is sent is not gated by the length
  of the buffer, only the update of \<open>stableWeight\<close> is.
\<close>

lemma first_sample_is_flagged_stable:
  "msg_stable (weight_update constructor 39170)
   \<and> weightBuffer (updateWeight constructor 39170) = [39170]
   \<and> stableWeight (updateWeight constructor 39170) = 0"
  by (simp add: constructor_def filter_defs)

text \<open>
  On readings with a decimal the rounding of the mean decides. In the first window the
  exact mean of the decimal readings is 7.2 and 12.2 lies exactly 5 from it, but the
  binary64 values give a distance below 5: the window is stable and 7 is stored. In the
  second the binary64 distance of 39172.7 from the mean rounds to 5, and the window is
  not stable. In the third the exact mean is 39171.5, the computed mean lies just below
  it, and 39171 is stored.
\<close>

lemma win_a_parse_0: "parseFloat ''12.2'' = 3433994715870003 / 281474976710656"
proof -
  have "parseFloat ''12.2'' = fl (122 / 10)"
    by (simp add: parseFloat_def digits_value_def isDigit_def)
  also have "\<dots> = 3433994715870003 / 281474976710656"
    by (rule fl_certificate[where e = "3" and n = "6867989431740006"]) (simp_all add: pow2_def)
  finally show ?thesis .
qed

lemma win_a_parse_1: "parseFloat ''5.2'' = 5854679515581645 / 1125899906842624"
proof -
  have "parseFloat ''5.2'' = fl (52 / 10)"
    by (simp add: parseFloat_def digits_value_def isDigit_def)
  also have "\<dots> = 5854679515581645 / 1125899906842624"
    by (rule fl_certificate[where e = "2" and n = "5854679515581645"]) (simp_all add: pow2_def)
  finally show ?thesis .
qed

lemma win_a_parse_2: "parseFloat ''6.2'' = 6980579422424269 / 1125899906842624"
proof -
  have "parseFloat ''6.2'' = fl (62 / 10)"
    by (simp add: parseFloat_def digits_value_def isDigit_def)
  also have "\<dots> = 6980579422424269 / 1125899906842624"
    by (rule fl_certificate[where e = "2" and n = "6980579422424269"]) (simp_all add: pow2_def)
  finally show ?thesis .
qed

lemma win_a_parse_3: "parseFloat ''6.2'' = 6980579422424269 / 1125899906842624"
proof -
  have "parseFloat ''6.2'' = fl (62 / 10)"
    by (simp add: parseFloat_def digits_value_def isDigit_def)
  also have "\<dots> = 6980579422424269 / 1125899906842624"
    by (rule fl_certificate[where e = "2" and n = "6980579422424269"]) (simp_all add: pow2_def)
  finally show ?thesis .
qed

lemma win_a_parse_4: "parseFloat ''6.2'' = 6980579422424269 / 1125899906842624"
proof -
  have "parseFloat ''6.2'' = fl (62 / 10)"
    by (simp add: parseFloat_def digits_value_def isDigit_def)
  also have "\<dots> = 6980579422424269 / 1125899906842624"
    by (rule fl_certificate[where e = "2" and n = "6980579422424269"]) (simp_all add: pow2_def)
  finally show ?thesis .
qed

lemma win_a_sum_0: "fadd (0) (3433994715870003 / 281474976710656) = 3433994715870003 / 281474976710656"
  unfolding fadd_def by (rule fl_certificate[where e = "3" and n = "6867989431740006"]) (simp_all add: pow2_def)

lemma win_a_sum_1: "fadd (3433994715870003 / 281474976710656) (5854679515581645 / 1125899906842624) = 2448832297382707 / 140737488355328"
  unfolding fadd_def by (rule fl_certificate[where e = "4" and n = "4897664594765414"]) (simp_all add: pow2_def)

lemma win_a_sum_2: "fadd (2448832297382707 / 140737488355328) (6980579422424269 / 1125899906842624) = 6642809450371481 / 281474976710656"
  unfolding fadd_def by (rule fl_certificate[where e = "4" and n = "6642809450371481"]) (simp_all add: pow2_def)

lemma win_a_sum_3: "fadd (6642809450371481 / 281474976710656) (6980579422424269 / 1125899906842624) = 2096988576494387 / 70368744177664"
  unfolding fadd_def by (rule fl_certificate[where e = "4" and n = "8387954305977548"]) (simp_all add: pow2_def)

lemma win_a_sum_4: "fadd (2096988576494387 / 70368744177664) (6980579422424269 / 1125899906842624) = 36"
  unfolding fadd_def by (rule fl_certificate[where e = "5" and n = "5066549580791808"]) (simp_all add: pow2_def)

lemma win_a_div: "fdiv (36) 5 = 8106479329266893 / 1125899906842624"
  unfolding fdiv_def by (rule fl_certificate[where e = "2" and n = "8106479329266893"]) (simp_all add: pow2_def)

lemma win_a_avg: "buffer_avg [3433994715870003 / 281474976710656, 5854679515581645 / 1125899906842624, 6980579422424269 / 1125899906842624, 6980579422424269 / 1125899906842624, 6980579422424269 / 1125899906842624] = 8106479329266893 / 1125899906842624"
proof -
  have len: "real (length [3433994715870003 / 281474976710656, 5854679515581645 / 1125899906842624, 6980579422424269 / 1125899906842624, 6980579422424269 / 1125899906842624, 6980579422424269 / 1125899906842624]) = 5" by simp
  show ?thesis
    by (simp only: buffer_avg_def foldl.simps len win_a_sum_0 win_a_sum_1 win_a_sum_2 win_a_sum_3 win_a_sum_4 win_a_div)
qed

lemma win_a_diff_0: "fsub (3433994715870003 / 281474976710656) (8106479329266893 / 1125899906842624) = 5629499534213119 / 1125899906842624"
  unfolding fsub_def by (rule fl_certificate[where e = "2" and n = "5629499534213119"]) (simp_all add: pow2_def)

lemma win_a_diff_1: "fsub (5854679515581645 / 1125899906842624) (8106479329266893 / 1125899906842624) = (- 2)"
  unfolding fsub_def by (rule fl_certificate[where e = "1" and n = "- 4503599627370496"]) (simp_all add: pow2_def)

lemma win_a_diff_2: "fsub (6980579422424269 / 1125899906842624) (8106479329266893 / 1125899906842624) = (- 1)"
  unfolding fsub_def by (rule fl_certificate[where e = "0" and n = "- 4503599627370496"]) (simp_all add: pow2_def)

lemma win_a_diff_3: "fsub (6980579422424269 / 1125899906842624) (8106479329266893 / 1125899906842624) = (- 1)"
  unfolding fsub_def by (rule fl_certificate[where e = "0" and n = "- 4503599627370496"]) (simp_all add: pow2_def)

lemma win_a_diff_4: "fsub (6980579422424269 / 1125899906842624) (8106479329266893 / 1125899906842624) = (- 1)"
  unfolding fsub_def by (rule fl_certificate[where e = "0" and n = "- 4503599627370496"]) (simp_all add: pow2_def)

lemma win_a_isStable: "buffer_isStable [3433994715870003 / 281474976710656, 5854679515581645 / 1125899906842624, 6980579422424269 / 1125899906842624, 6980579422424269 / 1125899906842624, 6980579422424269 / 1125899906842624]"
  by (simp only: buffer_isStable_def list.pred_inject win_a_avg win_a_diff_0 win_a_diff_1 win_a_diff_2 win_a_diff_3 win_a_diff_4; simp)

lemma win_a_round: "js_round (buffer_avg [3433994715870003 / 281474976710656, 5854679515581645 / 1125899906842624, 6980579422424269 / 1125899906842624, 6980579422424269 / 1125899906842624, 6980579422424269 / 1125899906842624]) = 7"
  by (simp only: win_a_avg js_round_def; simp)

lemma win_b_parse_0: "parseFloat ''39166.4'' = 5382989027265741 / 137438953472"
proof -
  have "parseFloat ''39166.4'' = fl (391664 / 10)"
    by (simp add: parseFloat_def digits_value_def isDigit_def)
  also have "\<dots> = 5382989027265741 / 137438953472"
    by (rule fl_certificate[where e = "15" and n = "5382989027265741"]) (simp_all add: pow2_def)
  finally show ?thesis .
qed

lemma win_b_parse_1: "parseFloat ''39172.7'' = 2691927446336307 / 68719476736"
proof -
  have "parseFloat ''39172.7'' = fl (391727 / 10)"
    by (simp add: parseFloat_def digits_value_def isDigit_def)
  also have "\<dots> = 2691927446336307 / 68719476736"
    by (rule fl_certificate[where e = "15" and n = "5383854892672614"]) (simp_all add: pow2_def)
  finally show ?thesis .
qed

lemma win_b_parse_2: "parseFloat ''39167.4'' = 5383126466219213 / 137438953472"
proof -
  have "parseFloat ''39167.4'' = fl (391674 / 10)"
    by (simp add: parseFloat_def digits_value_def isDigit_def)
  also have "\<dots> = 5383126466219213 / 137438953472"
    by (rule fl_certificate[where e = "15" and n = "5383126466219213"]) (simp_all add: pow2_def)
  finally show ?thesis .
qed

lemma win_b_parse_3: "parseFloat ''39166.8'' = 2691522001423565 / 68719476736"
proof -
  have "parseFloat ''39166.8'' = fl (391668 / 10)"
    by (simp add: parseFloat_def digits_value_def isDigit_def)
  also have "\<dots> = 2691522001423565 / 68719476736"
    by (rule fl_certificate[where e = "15" and n = "5383044002847130"]) (simp_all add: pow2_def)
  finally show ?thesis .
qed

lemma win_b_parse_4: "parseFloat ''39165.2'' = 2691412050260787 / 68719476736"
proof -
  have "parseFloat ''39165.2'' = fl (391652 / 10)"
    by (simp add: parseFloat_def digits_value_def isDigit_def)
  also have "\<dots> = 2691412050260787 / 68719476736"
    by (rule fl_certificate[where e = "15" and n = "5382824100521574"]) (simp_all add: pow2_def)
  finally show ?thesis .
qed

lemma win_b_sum_0: "fadd (0) (5382989027265741 / 137438953472) = 5382989027265741 / 137438953472"
  unfolding fadd_def by (rule fl_certificate[where e = "15" and n = "5382989027265741"]) (simp_all add: pow2_def)

lemma win_b_sum_1: "fadd (5382989027265741 / 137438953472) (2691927446336307 / 68719476736) = 2691710979984589 / 34359738368"
  unfolding fadd_def by (rule fl_certificate_tie[where e = "16" and f = "5383421959969177"]) (simp_all add: pow2_def)

lemma win_b_sum_2: "fadd (2691710979984589 / 34359738368) (5383126466219213 / 137438953472) = 235013 / 2"
  unfolding fadd_def by (rule fl_certificate_tie[where e = "16" and f = "8074985193078784"]) (simp_all add: pow2_def)

lemma win_b_sum_3: "fadd (235013 / 2) (2691522001423565 / 68719476736) = 2691626798625587 / 17179869184"
  unfolding fadd_def by (rule fl_certificate_tie[where e = "17" and f = "5383253597251174"]) (simp_all add: pow2_def)

lemma win_b_sum_4: "fadd (2691626798625587 / 17179869184) (2691412050260787 / 68719476736) = 391677 / 2"
  unfolding fadd_def by (rule fl_certificate_tie[where e = "17" and f = "6728959622381567"]) (simp_all add: pow2_def)

lemma win_b_div: "fdiv (391677 / 2) 5 = 2691583848952627 / 68719476736"
  unfolding fdiv_def by (rule fl_certificate[where e = "15" and n = "5383167697905254"]) (simp_all add: pow2_def)

lemma win_b_avg: "buffer_avg [5382989027265741 / 137438953472, 2691927446336307 / 68719476736, 5383126466219213 / 137438953472, 2691522001423565 / 68719476736, 2691412050260787 / 68719476736] = 2691583848952627 / 68719476736"
proof -
  have len: "real (length [5382989027265741 / 137438953472, 2691927446336307 / 68719476736, 5383126466219213 / 137438953472, 2691522001423565 / 68719476736, 2691412050260787 / 68719476736]) = 5" by simp
  show ?thesis
    by (simp only: buffer_avg_def foldl.simps len win_b_sum_0 win_b_sum_1 win_b_sum_2 win_b_sum_3 win_b_sum_4 win_b_div)
qed

lemma win_b_diff_0: "fsub (5382989027265741 / 137438953472) (2691583848952627 / 68719476736) = (- (178670639513 / 137438953472))"
  unfolding fsub_def by (rule fl_certificate[where e = "0" and n = "- 5854679515561984"]) (simp_all add: pow2_def)

lemma win_b_diff_1: "fsub (2691927446336307 / 68719476736) (2691583848952627 / 68719476736) = 5"
  unfolding fsub_def by (rule fl_certificate[where e = "2" and n = "5629499534213120"]) (simp_all add: pow2_def)

lemma win_b_diff_2: "fsub (5383126466219213 / 137438953472) (2691583848952627 / 68719476736) = (- (41231686041 / 137438953472))"
  unfolding fsub_def by (rule fl_certificate[where e = "- 2" and n = "- 5404319552765952"]) (simp_all add: pow2_def)

lemma win_b_diff_3: "fsub (2691522001423565 / 68719476736) (2691583848952627 / 68719476736) = (- (30923764531 / 34359738368))"
  unfolding fsub_def by (rule fl_certificate[where e = "- 1" and n = "- 8106479329214464"]) (simp_all add: pow2_def)

lemma win_b_diff_4: "fsub (2691412050260787 / 68719476736) (2691583848952627 / 68719476736) = (- (5 / 2))"
  unfolding fsub_def by (rule fl_certificate[where e = "1" and n = "- 5629499534213120"]) (simp_all add: pow2_def)

lemma win_b_isStable: "\<not> buffer_isStable [5382989027265741 / 137438953472, 2691927446336307 / 68719476736, 5383126466219213 / 137438953472, 2691522001423565 / 68719476736, 2691412050260787 / 68719476736]"
  by (simp only: buffer_isStable_def list.pred_inject win_b_avg win_b_diff_0 win_b_diff_1 win_b_diff_2 win_b_diff_3 win_b_diff_4; simp)

lemma win_b_round: "js_round (buffer_avg [5382989027265741 / 137438953472, 2691927446336307 / 68719476736, 5383126466219213 / 137438953472, 2691522001423565 / 68719476736, 2691412050260787 / 68719476736]) = 39168"
  by (simp only: win_b_avg js_round_def; simp)

lemma win_c_parse_0: "parseFloat ''39173.1'' = 5383909868254003 / 137438953472"
proof -
  have "parseFloat ''39173.1'' = fl (391731 / 10)"
    by (simp add: parseFloat_def digits_value_def isDigit_def)
  also have "\<dots> = 5383909868254003 / 137438953472"
    by (rule fl_certificate[where e = "15" and n = "5383909868254003"]) (simp_all add: pow2_def)
  finally show ?thesis .
qed

lemma win_c_parse_1: "parseFloat ''39169.3'' = 2691693800115405 / 68719476736"
proof -
  have "parseFloat ''39169.3'' = fl (391693 / 10)"
    by (simp add: parseFloat_def digits_value_def isDigit_def)
  also have "\<dots> = 2691693800115405 / 68719476736"
    by (rule fl_certificate[where e = "15" and n = "5383387600230810"]) (simp_all add: pow2_def)
  finally show ?thesis .
qed

lemma win_c_parse_2: "parseFloat ''39172.5'' = 78345 / 2"
proof -
  have "parseFloat ''39172.5'' = fl (391725 / 10)"
    by (simp add: parseFloat_def digits_value_def isDigit_def)
  also have "\<dots> = 78345 / 2"
    by (rule fl_certificate[where e = "15" and n = "5383827404881920"]) (simp_all add: pow2_def)
  finally show ?thesis .
qed

lemma win_c_parse_3: "parseFloat ''39171.7'' = 2691858726859571 / 68719476736"
proof -
  have "parseFloat ''39171.7'' = fl (391717 / 10)"
    by (simp add: parseFloat_def digits_value_def isDigit_def)
  also have "\<dots> = 2691858726859571 / 68719476736"
    by (rule fl_certificate[where e = "15" and n = "5383717453719142"]) (simp_all add: pow2_def)
  finally show ?thesis .
qed

lemma win_c_parse_4: "parseFloat ''39170.9'' = 5383607502556365 / 137438953472"
proof -
  have "parseFloat ''39170.9'' = fl (391709 / 10)"
    by (simp add: parseFloat_def digits_value_def isDigit_def)
  also have "\<dots> = 5383607502556365 / 137438953472"
    by (rule fl_certificate[where e = "15" and n = "5383607502556365"]) (simp_all add: pow2_def)
  finally show ?thesis .
qed

lemma win_c_sum_0: "fadd (0) (5383909868254003 / 137438953472) = 5383909868254003 / 137438953472"
  unfolding fadd_def by (rule fl_certificate[where e = "15" and n = "5383909868254003"]) (simp_all add: pow2_def)

lemma win_c_sum_1: "fadd (5383909868254003 / 137438953472) (2691693800115405 / 68719476736) = 2691824367121203 / 34359738368"
  unfolding fadd_def by (rule fl_certificate_tie[where e = "16" and f = "5383648734242406"]) (simp_all add: pow2_def)

lemma win_c_sum_2: "fadd (2691824367121203 / 34359738368) (78345 / 2) = 4037781218341683 / 34359738368"
  unfolding fadd_def by (rule fl_certificate[where e = "16" and n = "8075562436683366"]) (simp_all add: pow2_def)

lemma win_c_sum_3: "fadd (4037781218341683 / 34359738368) (2691858726859571 / 68719476736) = 1345927645442867 / 8589934592"
  unfolding fadd_def by (rule fl_certificate_tie[where e = "17" and f = "5383710581771468"]) (simp_all add: pow2_def)

lemma win_c_sum_4: "fadd (1345927645442867 / 8589934592) (5383607502556365 / 137438953472) = 6729612457410559 / 34359738368"
  unfolding fadd_def by (rule fl_certificate[where e = "17" and n = "6729612457410559"]) (simp_all add: pow2_def)

lemma win_c_div: "fdiv (6729612457410559 / 34359738368) 5 = 5383689965928447 / 137438953472"
  unfolding fdiv_def by (rule fl_certificate[where e = "15" and n = "5383689965928447"]) (simp_all add: pow2_def)

lemma win_c_avg: "buffer_avg [5383909868254003 / 137438953472, 2691693800115405 / 68719476736, 78345 / 2, 2691858726859571 / 68719476736, 5383607502556365 / 137438953472] = 5383689965928447 / 137438953472"
proof -
  have len: "real (length [5383909868254003 / 137438953472, 2691693800115405 / 68719476736, 78345 / 2, 2691858726859571 / 68719476736, 5383607502556365 / 137438953472]) = 5" by simp
  show ?thesis
    by (simp only: buffer_avg_def foldl.simps len win_c_sum_0 win_c_sum_1 win_c_sum_2 win_c_sum_3 win_c_sum_4 win_c_div)
qed

lemma win_c_diff_0: "fsub (5383909868254003 / 137438953472) (5383689965928447 / 137438953472) = 54975581389 / 34359738368"
  unfolding fsub_def by (rule fl_certificate[where e = "0" and n = "7205759403819008"]) (simp_all add: pow2_def)

lemma win_c_diff_1: "fsub (2691693800115405 / 68719476736) (5383689965928447 / 137438953472) = (- (302365697637 / 137438953472))"
  unfolding fsub_def by (rule fl_certificate[where e = "1" and n = "- 4953959590084608"]) (simp_all add: pow2_def)

lemma win_c_diff_2: "fsub (78345 / 2) (5383689965928447 / 137438953472) = 137438953473 / 137438953472"
  unfolding fsub_def by (rule fl_certificate[where e = "0" and n = "4503599627403264"]) (simp_all add: pow2_def)

lemma win_c_diff_3: "fsub (2691858726859571 / 68719476736) (5383689965928447 / 137438953472) = 27487790695 / 137438953472"
  unfolding fsub_def by (rule fl_certificate[where e = "- 3" and n = "7205759403950080"]) (simp_all add: pow2_def)

lemma win_c_diff_4: "fsub (5383607502556365 / 137438953472) (5383689965928447 / 137438953472) = (- (41231686041 / 68719476736))"
  unfolding fsub_def by (rule fl_certificate[where e = "- 1" and n = "- 5404319552765952"]) (simp_all add: pow2_def)

lemma win_c_isStable: "buffer_isStable [5383909868254003 / 137438953472, 2691693800115405 / 68719476736, 78345 / 2, 2691858726859571 / 68719476736, 5383607502556365 / 137438953472]"
  by (simp only: buffer_isStable_def list.pred_inject win_c_avg win_c_diff_0 win_c_diff_1 win_c_diff_2 win_c_diff_3 win_c_diff_4; simp)

lemma win_c_round: "js_round (buffer_avg [5383909868254003 / 137438953472, 2691693800115405 / 68719476736, 78345 / 2, 2691858726859571 / 68719476736, 5383607502556365 / 137438953472]) = 39171"
  by (simp only: win_c_avg js_round_def; simp)

lemmas line_defs = parseWeight_def trim_def isSpace_def isSign_def isDigit_def group1_def

lemmas ingest_defs = updateWeight_def broadcastWeight_def send_all_def ingest_def weight_update_def
  push_shift_def Let_def

lemma win_a_service:
  "weightBuffer (foldl parseWeight constructor decimal_window_a) = [3433994715870003 / 281474976710656, 5854679515581645 / 1125899906842624, 6980579422424269 / 1125899906842624, 6980579422424269 / 1125899906842624, 6980579422424269 / 1125899906842624]
   \<and> buffer_isStable (weightBuffer (foldl parseWeight constructor decimal_window_a))
   \<and> stableWeight (foldl parseWeight constructor decimal_window_a) = 7"
proof -
  have st: "foldl parseWeight constructor decimal_window_a =
      constructor\<lparr>currentWeight := 6980579422424269 / 1125899906842624, weightBuffer := [3433994715870003 / 281474976710656, 5854679515581645 / 1125899906842624, 6980579422424269 / 1125899906842624, 6980579422424269 / 1125899906842624, 6980579422424269 / 1125899906842624],
        stableWeight := 7\<rparr>"
    by (simp add: decimal_window_a_def constructor_def line_defs ingest_defs win_a_parse_0 win_a_parse_1 win_a_parse_2 win_a_parse_3 win_a_parse_4 win_a_isStable win_a_round)
  show ?thesis by (simp add: st win_a_isStable)
qed

lemma win_b_service:
  "weightBuffer (foldl parseWeight constructor decimal_window_b) = [5382989027265741 / 137438953472, 2691927446336307 / 68719476736, 5383126466219213 / 137438953472, 2691522001423565 / 68719476736, 2691412050260787 / 68719476736]
   \<and> \<not> buffer_isStable (weightBuffer (foldl parseWeight constructor decimal_window_b))
   \<and> stableWeight (foldl parseWeight constructor decimal_window_b) = 0"
proof -
  have st: "foldl parseWeight constructor decimal_window_b =
      constructor\<lparr>currentWeight := 2691412050260787 / 68719476736, weightBuffer := [5382989027265741 / 137438953472, 2691927446336307 / 68719476736, 5383126466219213 / 137438953472, 2691522001423565 / 68719476736, 2691412050260787 / 68719476736],
        stableWeight := 0\<rparr>"
    by (simp add: decimal_window_b_def constructor_def line_defs ingest_defs win_b_parse_0 win_b_parse_1 win_b_parse_2 win_b_parse_3 win_b_parse_4 win_b_isStable win_b_round)
  show ?thesis by (simp add: st win_b_isStable)
qed

lemma win_c_service:
  "weightBuffer (foldl parseWeight constructor decimal_window_c) = [5383909868254003 / 137438953472, 2691693800115405 / 68719476736, 78345 / 2, 2691858726859571 / 68719476736, 5383607502556365 / 137438953472]
   \<and> buffer_isStable (weightBuffer (foldl parseWeight constructor decimal_window_c))
   \<and> stableWeight (foldl parseWeight constructor decimal_window_c) = 39171"
proof -
  have st: "foldl parseWeight constructor decimal_window_c =
      constructor\<lparr>currentWeight := 5383607502556365 / 137438953472, weightBuffer := [5383909868254003 / 137438953472, 2691693800115405 / 68719476736, 78345 / 2, 2691858726859571 / 68719476736, 5383607502556365 / 137438953472],
        stableWeight := 39171\<rparr>"
    by (simp add: decimal_window_c_def constructor_def line_defs ingest_defs win_c_parse_0 win_c_parse_1 win_c_parse_2 win_c_parse_3 win_c_parse_4 win_c_isStable win_c_round)
  show ?thesis by (simp add: st win_c_isStable)
qed

text \<open>
  C1 (as amended). Every ingest broadcasts one weight event to each open subscriber.
  Whenever the buffer holds exactly 5 samples after the ingest and they are whole
  numbers of kilograms in \<open>[0, 200000)\<close>, the \<open>stable\<close> flag of that event is true if
  and only if every sample of the buffer lies strictly less than 5 kilograms from the
  arithmetic mean of the buffer.
\<close>

theorem C1_stable_flag_on_full_buffer:
  "outbox (updateWeight s w) =
     outbox s @ map (\<lambda>c. (c, weight_update s w)) (filter (\<lambda>c. readyState s c = 1) (wsClients s))
   \<and> (weightBuffer (updateWeight s w) = map of_int ks \<and> length ks = 5
        \<and> (\<forall>k \<in> set ks. 0 \<le> k \<and> k < 200000) \<longrightarrow>
        msg_stable (weight_update s w) =
          (\<forall>x \<in> set (weightBuffer (updateWeight s w)).
              \<bar>x - mean (weightBuffer (updateWeight s w))\<bar> < 5))"
proof (intro conjI impI)
  show "outbox (updateWeight s w) =
     outbox s @ map (\<lambda>c. (c, weight_update s w)) (filter (\<lambda>c. readyState s c = 1) (wsClients s))"
    by (rule outbox_updateWeight)
next
  assume h: "weightBuffer (updateWeight s w) = map of_int ks \<and> length ks = 5
        \<and> (\<forall>k \<in> set ks. 0 \<le> k \<and> k < 200000)"
  then have "buffer_isStable (map of_int ks)
           = (\<forall>x \<in> set (map of_int ks). \<bar>x - mean (map of_int ks)\<bar> < 5)"
    by (intro int_window_stable) simp_all
  with h show "msg_stable (weight_update s w) =
          (\<forall>x \<in> set (weightBuffer (updateWeight s w)).
              \<bar>x - mean (weightBuffer (updateWeight s w))\<bar> < 5)"
    by (simp only: msg_stable_weight_update)
qed

theorem C1_stable_flag_on_full_buffer_witness:
  "weightBuffer (updateWeight plateau_state 39169) = map of_int [39170, 39172, 39168, 39171, 39169]
   \<and> list_all (\<lambda>k. 0 \<le> k \<and> k < 200000) [39170, 39172, 39168, 39171, 39169 :: int]
   \<and> list_all (\<lambda>x. \<bar>x - mean (weightBuffer (updateWeight plateau_state 39169))\<bar> < 5)
         (weightBuffer (updateWeight plateau_state 39169))
   \<and> msg_stable (weight_update plateau_state 39169)"
proof -
  have range: "\<forall>k \<in> set [39170, 39172, 39168, 39171, 39169 :: int]. 0 \<le> k \<and> k < 200000"
    by simp
  have band: "\<forall>x \<in> set (weightBuffer (updateWeight plateau_state 39169)).
          \<bar>x - mean (weightBuffer (updateWeight plateau_state 39169))\<bar> < 5"
    by (simp add: plateau_window mean_def)
  from C1_stable_flag_on_full_buffer
    [of plateau_state 39169 "[39170, 39172, 39168, 39171, 39169]"] plateau_window range band
  have "msg_stable (weight_update plateau_state 39169)" by simp
  with plateau_window range band show ?thesis by (simp add: list_all_iff)
qed

text \<open>
  C1 as stated fails on the boundary of the band: after the samples 39175, 39165, 39170,
  39170, 39170 the buffer is full and every sample lies within 5 kilograms, inclusive,
  of the mean 39170, yet the event broadcast for the fifth sample has \<open>stable = false\<close>.
\<close>

theorem C1_inclusive_band_counterexample:
  "spec_stable_inclusive (weightBuffer (updateWeight boundary_state 39170))
   \<and> \<not> msg_stable (weight_update boundary_state 39170)"
proof -
  have range: "\<forall>k \<in> set [39175, 39165, 39170, 39170, 39170 :: int]. 0 \<le> k \<and> k < 200000"
    by simp
  have "spec_stable_inclusive (weightBuffer (updateWeight boundary_state 39170))"
    by (simp add: boundary_window spec_stable_inclusive_def mean_def)
  moreover have "\<not> buffer_isStable (map of_int [39175, 39165, 39170, 39170, 39170])"
    using int_window_stable[OF _ range] by (simp add: mean_def)
  ultimately show ?thesis by (simp add: msg_stable_weight_update boundary_window)
qed

text \<open>
  C2 (as amended). An ingest after which the buffer does not hold exactly 5 samples, or
  whose event is not flagged stable, leaves \<open>stableWeight\<close> as it was: it is never reset
  by an unstable sample. When the buffer holds exactly 5 samples after the ingest and
  they are whole numbers of kilograms in \<open>[0, 200000)\<close>, \<open>stableWeight\<close> becomes the
  rounded arithmetic mean of the buffer if every sample lies strictly less than 5
  kilograms from that mean, and is left as it was otherwise.
\<close>

theorem C2_stableWeight_update_or_hold:
  "(length (weightBuffer (updateWeight s1 w1)) \<noteq> 5 \<longrightarrow>
      stableWeight (updateWeight s1 w1) = stableWeight s1)
   \<and> (\<not> msg_stable (weight_update s2 w2) \<longrightarrow>
      stableWeight (updateWeight s2 w2) = stableWeight s2)
   \<and> (weightBuffer (updateWeight s w) = map of_int ks \<and> length ks = 5
        \<and> (\<forall>k \<in> set ks. 0 \<le> k \<and> k < 200000) \<longrightarrow>
      stableWeight (updateWeight s w) =
        (if \<forall>x \<in> set (weightBuffer (updateWeight s w)).
                \<bar>x - mean (weightBuffer (updateWeight s w))\<bar> < 5
         then of_int (round (mean (weightBuffer (updateWeight s w))))
         else stableWeight s))"
proof (intro conjI impI)
  assume "length (weightBuffer (updateWeight s1 w1)) \<noteq> 5"
  then show "stableWeight (updateWeight s1 w1) = stableWeight s1"
    by (simp add: stableWeight_updateWeight)
next
  assume "\<not> msg_stable (weight_update s2 w2)"
  then show "stableWeight (updateWeight s2 w2) = stableWeight s2"
    by (simp add: stableWeight_updateWeight msg_stable_weight_update)
next
  assume h: "weightBuffer (updateWeight s w) = map of_int ks \<and> length ks = 5
        \<and> (\<forall>k \<in> set ks. 0 \<le> k \<and> k < 200000)"
  then have st: "buffer_isStable (map of_int ks)
           = (\<forall>x \<in> set (map of_int ks). \<bar>x - mean (map of_int ks)\<bar> < 5)"
    and rd: "js_round (buffer_avg (map of_int ks)) = round (mean (map of_int ks))"
    by (simp_all add: int_window_stable int_window_round)
  from h have buf: "weightBuffer (updateWeight s w) = map of_int ks" and len: "length ks = 5"
    by simp_all
  show "stableWeight (updateWeight s w) =
        (if \<forall>x \<in> set (weightBuffer (updateWeight s w)).
                \<bar>x - mean (weightBuffer (updateWeight s w))\<bar> < 5
         then of_int (round (mean (weightBuffer (updateWeight s w))))
         else stableWeight s)"
    by (subst stableWeight_updateWeight) (simp only: buf st rd len length_map; simp)
qed

lemma plateau_captured:
  "updateWeight plateau_state 39169 =
     constructor\<lparr>currentWeight := 39169, weightBuffer := [39170, 39172, 39168, 39171, 39169],
        stableWeight := 39170\<rparr>"
  by (simp add: plateau_state_eq constructor_def filter_defs)

theorem C2_stableWeight_update_or_hold_witness:
  "length (weightBuffer (updateWeight constructor 39170)) \<noteq> 5
   \<and> stableWeight (updateWeight constructor 39170) = 0
   \<and> \<not> msg_stable (weight_update (updateWeight plateau_state 39169) 39190)
   \<and> stableWeight (updateWeight (updateWeight plateau_state 39169) 39190) = 39170
   \<and> weightBuffer (updateWeight plateau_state 39169) = map of_int [39170, 39172, 39168, 39171, 39169]
   \<and> list_all (\<lambda>k. 0 \<le> k \<and> k < 200000) [39170, 39172, 39168, 39171, 39169 :: int]
   \<and> stableWeight (updateWeight plateau_state 39169) = 39170"
proof -
  let ?p = "updateWeight plateau_state 39169"
  have short: "length (weightBuffer (updateWeight constructor 39170)) \<noteq> 5"
    by (simp add: weightBuffer_updateWeight push_shift_def)
  have noisy: "\<not> msg_stable (weight_update ?p 39190)"
    by (simp add: msg_stable_weight_update weightBuffer_updateWeight plateau_state_eq
        push_shift_def buffer_isStable_def buffer_avg_def fadd_def fsub_def fdiv_def)
  have range: "\<forall>k \<in> set [39170, 39172, 39168, 39171, 39169 :: int]. 0 \<le> k \<and> k < 200000"
    by simp
  have band: "\<forall>x \<in> set (weightBuffer ?p). \<bar>x - mean (weightBuffer ?p)\<bar> < 5"
    by (simp add: plateau_window mean_def)
  have rnd: "round (mean (weightBuffer ?p)) = 39170"
    by (simp add: plateau_window mean_def)
  have held: "stableWeight ?p = 39170" by (simp add: plateau_captured)
  from C2_stableWeight_update_or_hold
    [of constructor 39170 ?p 39190 plateau_state 39169 "[39170, 39172, 39168, 39171, 39169]"]
    short noisy plateau_window range band rnd held
  show ?thesis by (simp add: list_all_iff)
qed

text \<open>
  C2 as stated fails on the boundary of the band: after the samples 39175, 39165, 39170,
  39170, 39170 on a fresh service the buffer is full, every sample lies within 5
  kilograms, inclusive, of the mean, and the rounded mean is 39170, yet \<open>stableWeight\<close>
  keeps its previous value 0.
\<close>

theorem C2_inclusive_band_counterexample:
  "spec_stable_inclusive (weightBuffer (updateWeight boundary_state 39170))
   \<and> round (mean (weightBuffer (updateWeight boundary_state 39170))) = 39170
   \<and> stableWeight boundary_state = 0
   \<and> stableWeight (updateWeight boundary_state 39170) = 0"
proof -
  have range: "\<forall>k \<in> set [39175, 39165, 39170, 39170, 39170 :: int]. 0 \<le> k \<and> k < 200000"
    by simp
  have incl: "spec_stable_inclusive (weightBuffer (updateWeight boundary_state 39170))"
    by (simp add: boundary_window spec_stable_inclusive_def mean_def)
  have rnd: "round (mean (weightBuffer (updateWeight boundary_state 39170))) = 39170"
    by (simp add: boundary_window mean_def)
  have "\<not> buffer_isStable (map of_int [39175, 39165, 39170, 39170, 39170])"
    using int_window_stable[OF _ range] by (simp add: mean_def)
  then have "stableWeight (updateWeight boundary_state 39170) = stableWeight boundary_state"
    by (subst stableWeight_updateWeight) (simp add: boundary_window)
  moreover have "stableWeight boundary_state = 0" by (simp add: boundary_state_eq)
  ultimately show ?thesis using incl rnd by simp
qed

subsection \<open>Facts about the parser\<close>

lemmas parse_defs = parseWeight_def trim_def isSpace_def isSign_def isDigit_def group1_def
  parseFloat_def digits_value_def

lemma parseWeight_tagged_line: "parseWeight s ''ST,GS,+039170kg'' = updateWeight s 39170"
  by (simp add: parse_defs)

lemma parseWeight_drops_200000: "parseWeight s ''200000 Kg'' = s"
  by (simp add: parse_defs)

lemma parseWeight_drops_text: "parseWeight s ''ERR'' = s"
  by (simp add: parse_defs)

text \<open>
  A reading just below the bound whose nearest binary64 value is 200000 is dropped.
\<close>

lemma parseFloat_rounds_to_bound: "parseFloat ''199999.99999999999999'' = 200000"
proof -
  have "parseFloat ''199999.99999999999999'' = fl (19999999999999999999 / 100000000000000)"
    by (simp add: parseFloat_def digits_value_def isDigit_def)
  also have "\<dots> = 200000"
    by (rule fl_certificate[where e = "17" and n = "6871947673600000"]) (simp_all add: pow2_def)
  finally show ?thesis .
qed

lemma parseWeight_drops_rounded_bound: "parseWeight s ''199999.99999999999999'' = s"
  by (simp add: line_defs parseFloat_rounds_to_bound)

text \<open>
  C4. The line \<open>-50\<close> is matched with its sign, but the capture group holds the digits
  only, so the value parsed is 50: it passes the range check, and the sample 50 is pushed
  through the filter and broadcast.
\<close>

theorem C4_negative_line_is_accepted:
  "parseWeight s ''-50'' = updateWeight s 50
   \<and> currentWeight (parseWeight s ''-50'') = 50
   \<and> weightBuffer (parseWeight s ''-50'') = push_shift (weightBuffer s) 50"
proof -
  have "parseWeight s ''-50'' = updateWeight s 50"
    by (simp add: parse_defs)
  then show ?thesis
    by (simp add: weightBuffer_updateWeight) (simp add: filter_defs)
qed

subsection \<open>Facts about the connection manager\<close>

lemmas conn_defs = tryConnect_def fall_back_def startReconnectLoop_def startSimulationIfNeeded_def
  stopSimulation_def stopReconnectLoop_def open_callback_def onPortLost_def initialize_def
  reconnect_def poll_tick_def poll_result_def broadcastStatus_def send_all_def
  isPortAvailable_def

lemma updateWeight_conn [simp]:
  "isConnected (updateWeight s w) = isConnected s"
  "simInterval (updateWeight s w) = simInterval s"
  "reconnectActive (updateWeight s w) = reconnectActive s"
  "pendingOpens (updateWeight s w) = pendingOpens s"
  by (simp_all add: updateWeight_def broadcastWeight_def send_all_def ingest_def Let_def)

lemma parseWeight_conn [simp]:
  "isConnected (parseWeight s l) = isConnected s"
  "simInterval (parseWeight s l) = simInterval s"
  "reconnectActive (parseWeight s l) = reconnectActive s"
  "pendingOpens (parseWeight s l) = pendingOpens s"
  by (simp_all add: parseWeight_def Let_def split: option.splits)

lemma feed_exclusive_step:
  assumes "feed_exclusive s" and "step s e = Some s'"
  shows "feed_exclusive s'"
proof (cases e)
  case (Initialize p b thr)
  with assms show ?thesis
    by (auto simp: feed_exclusive_def conn_defs Let_def split: option.splits if_splits)
next
  case (Reconnect p b thr)
  with assms show ?thesis
    by (auto simp: feed_exclusive_def conn_defs Let_def split: option.splits if_splits)
next
  case (OpenDone sp err)
  with assms show ?thesis
    by (auto simp: feed_exclusive_def conn_defs Let_def split: option.splits if_splits)
next
  case (PortError sp)
  with assms show ?thesis
    by (auto simp: feed_exclusive_def conn_defs Let_def split: option.splits if_splits)
next
  case (PortClose sp)
  with assms show ?thesis
    by (auto simp: feed_exclusive_def conn_defs Let_def split: option.splits if_splits)
next
  case (PortData sp l)
  with assms show ?thesis
    by (auto simp: feed_exclusive_def split: if_splits)
next
  case (SimTick t r)
  with assms show ?thesis
    by (auto simp: feed_exclusive_def sim_tick_def stopSimulation_def Let_def
        split: if_splits option.splits)
next
  case (PollTick t)
  with assms show ?thesis
    by (auto simp: feed_exclusive_def conn_defs split: if_splits option.splits)
next
  case (PollResult ports thr)
  with assms show ?thesis
    by (auto simp: feed_exclusive_def conn_defs Let_def split: if_splits option.splits list.splits)
next
  case (WsConnect ws)
  with assms show ?thesis
    by (auto simp: feed_exclusive_def addWSClient_def split: if_splits)
next
  case (WsClose ws)
  with assms show ?thesis
    by (auto simp: feed_exclusive_def ws_close_def split: if_splits)
next
  case (Elapse d)
  with assms show ?thesis
    by (auto simp: feed_exclusive_def)
qed

lemma single_attempt_step:
  assumes "single_attempt s" and "step s e = Some s'"
  shows "single_attempt s'"
proof (cases e)
  case (Initialize p b thr)
  with assms show ?thesis
    by (auto simp: single_attempt_def conn_defs Let_def split: option.splits if_splits)
next
  case (Reconnect p b thr)
  with assms show ?thesis
    by (auto simp: single_attempt_def conn_defs Let_def split: option.splits if_splits)
next
  case (OpenDone sp err)
  with assms show ?thesis
    by (cases "pendingOpens s")
       (auto simp: single_attempt_def conn_defs Let_def split: option.splits if_splits)
next
  case (PortError sp)
  with assms show ?thesis
    by (auto simp: single_attempt_def conn_defs Let_def split: option.splits if_splits)
next
  case (PortClose sp)
  with assms show ?thesis
    by (auto simp: single_attempt_def conn_defs Let_def split: option.splits if_splits)
next
  case (PortData sp l)
  with assms show ?thesis
    by (auto simp: single_attempt_def split: if_splits)
next
  case (SimTick t r)
  with assms show ?thesis
    by (auto simp: single_attempt_def sim_tick_def stopSimulation_def Let_def
        split: if_splits option.splits)
next
  case (PollTick t)
  with assms show ?thesis
    by (auto simp: single_attempt_def conn_defs split: if_splits option.splits)
next
  case (PollResult ports thr)
  with assms show ?thesis
    by (auto simp: single_attempt_def conn_defs Let_def split: if_splits option.splits list.splits)
next
  case (WsConnect ws)
  with assms show ?thesis
    by (auto simp: single_attempt_def addWSClient_def split: if_splits)
next
  case (WsClose ws)
  with assms show ?thesis
    by (auto simp: single_attempt_def ws_close_def split: if_splits)
next
  case (Elapse d)
  with assms show ?thesis
    by (auto simp: single_attempt_def)
qed

lemma run_invariant:
  assumes step: "\<And>s e s'. P s \<Longrightarrow> step s e = Some s' \<Longrightarrow> P s'"
  shows "P s \<Longrightarrow> run s es = Some t \<Longrightarrow> P t"
proof (induction es arbitrary: s)
  case Nil
  then show ?case by simp
next
  case (Cons e es)
  then show ?case by (auto split: option.splits dest: step)
qed

lemma feed_exclusive_reachable: "run constructor es = Some s \<Longrightarrow> feed_exclusive s"
proof (rule run_invariant [where P = feed_exclusive])
  show "feed_exclusive constructor" by (simp add: feed_exclusive_def)
qed (auto intro: feed_exclusive_step)

lemma single_attempt_reachable: "run constructor es = Some s \<Longrightarrow> single_attempt s"
proof (rule run_invariant [where P = single_attempt])
  show "single_attempt constructor" by (simp add: single_attempt_def)
qed (auto intro: single_attempt_step)

lemmas session_defs = conn_defs sim_tick_def updateWeight_def broadcastWeight_def ingest_def
  weight_update_def push_shift_def buffer_avg_def buffer_isStable_def fadd_def fsub_def fmul_def
  fdiv_def Let_def

lemma connecting_run:
  "run constructor connecting_session =
     Some (constructor\<lparr>portPath := Some ''COM3'', isSimulation := True, currentWeight := 39170,
        weightBuffer := [39170], simInterval := Some 1, reconnectTimer := Some 2,
        reconnectActive := True, simBase := 39170, pendingOpens := [3], nextId := 4\<rparr>)"
  by (simp add: connecting_session_def constructor_def session_defs)

lemma connected_run:
  "run constructor connected_session =
     Some (constructor\<lparr>portPath := Some ''COM3'', port := Some 3, parser := Some 3,
        isConnected := True, currentWeight := 39170, weightBuffer := [39170],
        simBase := 39170, livePorts := [3], nextId := 4\<rparr>)"
  by (simp add: connected_session_def connecting_session_def constructor_def session_defs)

text \<open>
  C3. In every state that the service reaches from its construction, the real
  connection (\<open>isConnected\<close> with an open port) and the simulation timer are not both
  active; and a firing of the simulation timer first tests \<open>isConnected\<close>: when it is
  set the timer is cleared and no sample is produced, when it is not the timer stays.
\<close>

theorem C3_feed_sources_exclusive:
  "(run constructor es = Some s \<longrightarrow>
       \<not> (realActive s \<and> simActive s) \<and> \<not> (isConnected s \<and> simActive s))
   \<and> (isConnected t \<longrightarrow>
         sim_tick t r = stopSimulation t \<and> \<not> simActive (sim_tick t r)
         \<and> outbox (sim_tick t r) = outbox t \<and> weightBuffer (sim_tick t r) = weightBuffer t)
   \<and> (\<not> isConnected t \<longrightarrow> simInterval (sim_tick t r) = simInterval t)"
proof (intro conjI impI)
  assume "run constructor es = Some s"
  then have "feed_exclusive s" by (rule feed_exclusive_reachable)
  then show "\<not> (realActive s \<and> simActive s)" and "\<not> (isConnected s \<and> simActive s)"
    by (auto simp: feed_exclusive_def realActive_def simActive_def)
next
  assume "isConnected t"
  then show "sim_tick t r = stopSimulation t" and "\<not> simActive (sim_tick t r)"
    and "outbox (sim_tick t r) = outbox t" and "weightBuffer (sim_tick t r) = weightBuffer t"
    by (auto simp: sim_tick_def stopSimulation_def simActive_def split: option.splits)
next
  assume "\<not> isConnected t"
  then show "simInterval (sim_tick t r) = simInterval t"
    by (simp add: sim_tick_def Let_def)
qed

theorem C3_feed_sources_exclusive_witness:
  "run constructor connected_session \<noteq> None
   \<and> isConnected (the (run constructor connected_session))
   \<and> realActive (the (run constructor connected_session))
   \<and> \<not> simActive (the (run constructor connected_session))
   \<and> \<not> isConnected (the (run constructor connecting_session))
   \<and> simInterval (sim_tick (the (run constructor connecting_session)) (1 / 2)) = Some 1"
proof -
  let ?s = "the (run constructor connected_session)"
  let ?t = "the (run constructor connecting_session)"
  have run: "run constructor connected_session = Some ?s" by (simp add: connected_run)
  have conn: "isConnected ?s" and real: "realActive ?s"
    by (simp_all add: connected_run realActive_def)
  have noconn: "\<not> isConnected ?t" and timer: "simInterval ?t = Some 1"
    by (simp_all add: connecting_run)
  from C3_feed_sources_exclusive [of connected_session ?s ?t "1 / 2"] run conn real noconn timer
  show ?thesis by auto
qed

text \<open>
  C5 (as amended). The callback of a successful \<open>open\<close> leaves the stability buffer as
  it is; it sets the connection flags, clears the attempt flag, stops the simulation
  and the reconnect poll, and broadcasts the status to every open subscriber.
\<close>

theorem C5_open_keeps_buffer:
  "weightBuffer (open_callback s sp None) = weightBuffer s
   \<and> isConnected (open_callback s sp None) \<and> \<not> isSimulation (open_callback s sp None)
   \<and> \<not> reconnectActive (open_callback s sp None)
   \<and> simInterval (open_callback s sp None) = None
   \<and> reconnectTimer (open_callback s sp None) = None
   \<and> outbox (open_callback s sp None) =
        outbox s @ map (\<lambda>c. (c, StatusMsg True False)) (filter (\<lambda>c. readyState s c = 1) (wsClients s))"
  by (simp add: open_callback_def broadcastStatus_def send_all_def stopReconnectLoop_def
      stopSimulation_def readyState_def Let_def split: option.splits)

theorem C5_open_keeps_buffer_witness:
  "weightBuffer (open_callback (the (run constructor connecting_session)) 3 None) = [39170]
   \<and> simInterval (the (run constructor connecting_session)) = Some 1
   \<and> simInterval (open_callback (the (run constructor connecting_session)) 3 None) = None"
  using C5_open_keeps_buffer [of "the (run constructor connecting_session)" 3]
  by (simp add: connecting_run)

text \<open>
  C5 as stated fails: in the session where the simulation has produced the sample 39170
  while the port was missing, the attempt that is in flight opens the port, and the
  state after the callback is connected with the simulated sample still in the buffer.
\<close>

theorem C5_buffer_reset_counterexample:
  "map_option reconnectActive (run constructor connecting_session) = Some True
   \<and> map_option isConnected (run constructor connecting_session) = Some False
   \<and> map_option isConnected (run constructor connected_session) = Some True
   \<and> map_option weightBuffer (run constructor connected_session) = Some [39170]"
  by (simp add: connecting_run connected_run)

text \<open>
  C6. In every state that the service reaches from its construction at most one
  \<open>open\<close> is outstanding, and one is outstanding exactly when \<open>reconnectActive\<close> is
  set; \<open>reconnect\<close> called while the flag is set starts no further attempt. The flag is
  set by an attempt that starts, and cleared by the \<open>catch\<close> branch and by the
  callback, with or without an error.
\<close>

theorem C6_single_attempt_in_flight:
  "(run constructor es = Some s \<longrightarrow>
       length (pendingOpens s) \<le> 1 \<and> (reconnectActive s = (pendingOpens s \<noteq> []))
       \<and> (reconnectActive s \<longrightarrow>
             pendingOpens (reconnect s path baud throws) = pendingOpens s
             \<and> reconnectActive (reconnect s path baud throws)))
   \<and> (\<not> reconnectActive t \<longrightarrow>
         reconnectActive (tryConnect t False)
         \<and> pendingOpens (tryConnect t False) = pendingOpens t @ [nextId t]
         \<and> \<not> reconnectActive (tryConnect t True)
         \<and> pendingOpens (tryConnect t True) = pendingOpens t)
   \<and> \<not> reconnectActive (open_callback t sp err)"
proof (intro conjI impI)
  assume "run constructor es = Some s"
  then have "single_attempt s" by (rule single_attempt_reachable)
  then show "length (pendingOpens s) \<le> 1" and "reconnectActive s = (pendingOpens s \<noteq> [])"
    by (simp_all add: single_attempt_def)
next
  assume "reconnectActive s"
  then show "pendingOpens (reconnect s path baud throws) = pendingOpens s"
    and "reconnectActive (reconnect s path baud throws)"
    by (auto simp: reconnect_def tryConnect_def stopReconnectLoop_def stopSimulation_def Let_def
        split: option.splits)
next
  assume "\<not> reconnectActive t"
  then show "reconnectActive (tryConnect t False)"
    and "pendingOpens (tryConnect t False) = pendingOpens t @ [nextId t]"
    and "\<not> reconnectActive (tryConnect t True)"
    and "pendingOpens (tryConnect t True) = pendingOpens t"
    by (auto simp: tryConnect_def fall_back_def startReconnectLoop_def startSimulationIfNeeded_def
        Let_def split: option.splits)
next
  show "\<not> reconnectActive (open_callback t sp err)"
    by (auto simp: open_callback_def fall_back_def startReconnectLoop_def
        startSimulationIfNeeded_def stopReconnectLoop_def stopSimulation_def broadcastStatus_def
        send_all_def Let_def split: option.splits)
qed

theorem C6_single_attempt_in_flight_witness:
  "run constructor connecting_session \<noteq> None
   \<and> reconnectActive (the (run constructor connecting_session))
   \<and> pendingOpens (reconnect (the (run constructor connecting_session)) ''COM4'' 4800 False) = [3]
   \<and> \<not> reconnectActive constructor
   \<and> pendingOpens (tryConnect constructor False) = [0]"
proof -
  let ?s = "the (run constructor connecting_session)"
  have run: "run constructor connecting_session = Some ?s" by (simp add: connecting_run)
  have act: "reconnectActive ?s" and pend: "pendingOpens ?s = [3]"
    by (simp_all add: connecting_run)
  have idle: "\<not> reconnectActive constructor" "pendingOpens constructor = []" "nextId constructor = 0"
    by simp_all
  from C6_single_attempt_in_flight [of connecting_session ?s "''COM4''" 4800 False constructor]
    run act pend idle
  show ?thesis by auto
qed

subsection \<open>Facts about sockets and the copy loop\<close>

lemma settle_simps [simp]:
  "settle Pending v = v" "settle (Fulfilled x) v = Fulfilled x" "settle (Rejected e) v = Rejected e"
  by (simp_all add: settle_def)

lemma send_copies_all_delivered:
  "list_all (delivers dat host prt) oks \<Longrightarrow> length oks = n \<Longrightarrow>
     send_copies n dat host prt (oks @ rest)
       = (Fulfilled (), map (connect_and_send dat host prt) oks, rest)"
proof (induction oks arbitrary: n)
  case Nil
  then show ?case by simp
next
  case (Cons sc oks)
  then obtain m where n: "n = Suc m" and m: "length oks = m" by (cases n) auto
  from Cons.prems have "conn_result (connect_and_send dat host prt sc) = Fulfilled ()"
    by (simp add: delivers_def connect_and_send_def)
  moreover from Cons.prems have "list_all (delivers dat host prt) oks" by simp
  ultimately show ?case using Cons.IH[OF _ m] by (simp add: n Let_def)
qed

lemma send_copies_first_failure:
  "list_all (delivers dat host prt) oks \<Longrightarrow> length oks < n \<Longrightarrow> fails_with dat host prt bad e \<Longrightarrow>
     send_copies n dat host prt (oks @ bad # rest)
       = (Rejected e, map (connect_and_send dat host prt) (oks @ [bad]), rest)"
proof (induction oks arbitrary: n)
  case Nil
  then obtain m where n: "n = Suc m" by (cases n) auto
  from Nil.prems have "conn_result (connect_and_send dat host prt bad) = Rejected e"
    by (simp add: fails_with_def connect_and_send_def)
  then show ?case by (simp add: n Let_def)
next
  case (Cons sc oks)
  then obtain m where n: "n = Suc m" and m: "length oks < m" by (cases n) auto
  from Cons.prems have "conn_result (connect_and_send dat host prt sc) = Fulfilled ()"
    by (simp add: delivers_def connect_and_send_def)
  moreover from Cons.prems have "list_all (delivers dat host prt) oks" by simp
  ultimately show ?case using Cons.IH[OF _ m Cons.prems(3)] by (simp add: n Let_def)
qed

text \<open>The promise of a copy is fulfilled by the close event of its socket only.\<close>

lemma send_fold_fulfilled:
  "fst (foldl (send_handler dat host prt) (p0, c0) script) = Fulfilled () \<Longrightarrow>
     p0 = Fulfilled () \<or> Close \<in> set script"
proof (induction script arbitrary: p0 c0)
  case Nil
  then show ?case by simp
next
  case (Cons ev script)
  obtain p1 c1 where step: "send_handler dat host prt (p0, c0) ev = (p1, c1)"
    by (cases "send_handler dat host prt (p0, c0) ev")
  with Cons.prems have "fst (foldl (send_handler dat host prt) (p1, c1) script) = Fulfilled ()"
    by simp
  from Cons.IH[OF this] have "p1 = Fulfilled () \<or> Close \<in> set script" .
  moreover have "p1 = Fulfilled () \<Longrightarrow> p0 = Fulfilled () \<or> ev = Close"
    using step by (cases ev; cases p0) (auto split: if_splits)
  ultimately show ?case by auto
qed

lemma delivers_closed: "delivers dat host prt script \<Longrightarrow> Close \<in> set script"
  using send_fold_fulfilled[of dat host prt Pending _ script]
  by (auto simp: delivers_def sendRawToIPPrinter_def)

lemma send_handler_written:
  "set (sock_written c0) \<subseteq> {dat} \<Longrightarrow>
     set (sock_written (snd (send_handler dat host prt (p0, c0) ev))) \<subseteq> {dat}"
  by (cases ev) simp_all

lemma send_fold_written:
  "set (sock_written (snd st)) \<subseteq> {dat} \<Longrightarrow>
     set (sock_written (snd (foldl (send_handler dat host prt) st script))) \<subseteq> {dat}"
proof (induction script arbitrary: st)
  case Nil
  then show ?case by simp
next
  case (Cons ev script)
  have "set (sock_written (snd (send_handler dat host prt st ev))) \<subseteq> {dat}"
    using send_handler_written[of "snd st" dat host prt "fst st" ev] Cons.prems by simp
  from Cons.IH[OF this] show ?case by simp
qed

lemma connect_and_send_written:
  "set (sock_written (conn_socket (connect_and_send dat host prt script))) \<subseteq> {dat}"
  using send_fold_written[of "(Pending, new_Socket\<lparr>sock_timeout := Some 10000\<rparr>)" dat host prt script]
  by (simp add: connect_and_send_def sendRawToIPPrinter_def new_Socket_def)

lemma send_copies_written:
  "c \<in> set (fst (snd (send_copies n dat host prt scripts))) \<Longrightarrow>
     set (sock_written (conn_socket c)) \<subseteq> {dat}"
proof (induction n arbitrary: scripts c)
  case 0
  then show ?case by simp
next
  case (Suc n)
  let ?c0 = "connect_and_send dat host prt (case scripts of [] \<Rightarrow> [] | x # _ \<Rightarrow> x)"
  from Suc.prems have "c = ?c0 \<or> c \<in> set (fst (snd (send_copies n dat host prt (tl scripts))))"
    by (auto simp: Let_def split: promise.splits prod.splits)
  then show ?case
  proof
    assume "c = ?c0"
    then show ?thesis using connect_and_send_written by blast
  next
    assume "c \<in> set (fst (snd (send_copies n dat host prt (tl scripts))))"
    then show ?thesis by (rule Suc.IH)
  qed
qed

lemma raw_fallback_written:
  "c \<in> set (snd (raw_fallback js b host prt copies [] scripts)) \<Longrightarrow>
     set (sock_written (conn_socket c)) \<subseteq> {buildRawPCL js b}"
  using send_copies_written[of c "nat copies" "buildRawPCL js b" host prt scripts]
  by (auto simp: raw_fallback_def Let_def split: prod.splits promise.splits)

lemma raw_fallback_method:
  "fst (raw_fallback js b host prt copies conns scripts) = Fulfilled r \<Longrightarrow>
     r = \<lparr>res_success = True, res_method = ''ip_raw'', res_host = host, res_port = prt\<rparr>"
  by (auto simp: raw_fallback_def Let_def split: prod.splits promise.splits)

lemma buildRawPCL_no_camera:
  "buildRawPCL js (b\<lparr>camera1Image := x, camera2Image := y\<rparr>) = buildRawPCL js b"
  by (simp add: buildRawPCL_def)

text \<open>The document is framed by the control sequences and holds the fields of the bill.\<close>

lemma sublist_concat: "x \<in> set xss \<Longrightarrow> sublist x (concat xss)"
proof -
  assume "x \<in> set xss"
  then obtain as bs where "xss = as @ x # bs" by (auto dest: split_list)
  then have "concat xss = concat as @ x @ concat bs" by simp
  then show ?thesis by (simp only: sublist_appendI)
qed

lemma sublist_of_item:
  assumes "item \<in> set xss" and "item = pre @ part @ post"
  shows "sublist part (concat xss)"
proof -
  have "sublist part item" by (simp only: assms(2) sublist_appendI)
  moreover have "sublist item (concat xss)" using assms(1) by (rule sublist_concat)
  ultimately show ?thesis by (rule sublist_order.order.trans)
qed

lemma buildRawPCL_framed:
  "prefix (ESC # ''%-12345X@PJL'' @ CRLF) (buildRawPCL js b)
   \<and> suffix (ESC # ''E'' @ ESC # ''%-12345X'') (buildRawPCL js b)"
proof
  show "prefix (ESC # ''%-12345X@PJL'' @ CRLF) (buildRawPCL js b)"
    by (rule prefixI) (simp add: buildRawPCL_def)
  show "suffix (ESC # ''E'' @ ESC # ''%-12345X'') (buildRawPCL js b)"
    by (rule suffixI[where zs = "concat (butlast (butlast
          [ ESC # ''%-12345X@PJL'' @ CRLF,
            ''@PJL ENTER LANGUAGE=PCL'' @ CRLF,
            ESC # ''E'',
            ESC # ''&l0O'',
            ESC # ''&l2A'',
            CRLF,
            ''SRI VENKADESWARA WEIGH BRIDGE'' @ CRLF,
            rule48 @ CRLF,
            ''Serial No : '' @ num_str js (billNo b) @ ''    Date: ''
               @ toLocaleDateString js (dateTime b) @ CRLF,
            ''Time      : '' @ toLocaleTimeString js (dateTime b) @ CRLF,
            rule48 @ CRLF,
            ''Vehicle No    : '' @ vehicleNo b @ CRLF,
            ''Customer Name : '' @ customer b @ CRLF,
            ''Material      : '' @ material b @ CRLF,
            ''Charge        : Rs. '' @ num_str js (charges b) @ CRLF,
            rule48 @ CRLF,
            ''Gross Weight  : '' @ value_or_dashes js (weigh_value_of (grossWeight b)) @ '' Kg'' @ CRLF,
            ''               '' @ weigh_time_of js (grossWeight b) @ CRLF,
            ''Tare Weight   : '' @ value_or_dashes js (weigh_value_of (tareWeight b)) @ '' Kg'' @ CRLF,
            ''               '' @ weigh_time_of js (tareWeight b) @ CRLF,
            rule48 @ CRLF,
            ''NET WEIGHT    : '' @ value_or_dashes js (netWeight b) @ '' Kg'' @ CRLF,
            rule48 @ CRLF,
            CRLF @ CRLF @ CRLF,
            ESC # ''E'',
            ESC # ''%-12345X'' ]))"]) (simp add: buildRawPCL_def)
qed

lemma buildRawPCL_fields:
  "sublist (num_str js (billNo b)) (buildRawPCL js b)"
  "sublist (toLocaleDateString js (dateTime b)) (buildRawPCL js b)"
  "sublist (toLocaleTimeString js (dateTime b)) (buildRawPCL js b)"
  "sublist (vehicleNo b) (buildRawPCL js b)"
  "sublist (customer b) (buildRawPCL js b)"
  "sublist (material b) (buildRawPCL js b)"
  "sublist (num_str js (charges b)) (buildRawPCL js b)"
  "sublist (value_or_dashes js (weigh_value_of (grossWeight b))) (buildRawPCL js b)"
  "sublist (weigh_time_of js (grossWeight b)) (buildRawPCL js b)"
  "sublist (value_or_dashes js (weigh_value_of (tareWeight b))) (buildRawPCL js b)"
  "sublist (weigh_time_of js (tareWeight b)) (buildRawPCL js b)"
  "sublist (value_or_dashes js (netWeight b)) (buildRawPCL js b)"
  unfolding buildRawPCL_def
  subgoal by (rule sublist_of_item[where pre = "''Serial No : ''" and post = "''    Date: '' @ toLocaleDateString js (dateTime b) @ CRLF"]; simp)
  subgoal by (rule sublist_of_item[where pre = "''Serial No : '' @ num_str js (billNo b) @ ''    Date: ''" and post = "CRLF"]; simp)
  subgoal by (rule sublist_of_item[where pre = "''Time      : ''" and post = "CRLF"]; simp)
  subgoal by (rule sublist_of_item[where pre = "''Vehicle No    : ''" and post = "CRLF"]; simp)
  subgoal by (rule sublist_of_item[where pre = "''Customer Name : ''" and post = "CRLF"]; simp)
  subgoal by (rule sublist_of_item[where pre = "''Material      : ''" and post = "CRLF"]; simp)
  subgoal by (rule sublist_of_item[where pre = "''Charge        : Rs. ''" and post = "CRLF"]; simp)
  subgoal by (rule sublist_of_item[where pre = "''Gross Weight  : ''" and post = "'' Kg'' @ CRLF"]; simp)
  subgoal by (rule sublist_of_item[where pre = "''               ''" and post = "CRLF"]; simp)
  subgoal by (rule sublist_of_item[where pre = "''Tare Weight   : ''" and post = "'' Kg'' @ CRLF"]; simp)
  subgoal by (rule sublist_of_item[where pre = "''               ''" and post = "CRLF"]; simp)
  subgoal by (rule sublist_of_item[where pre = "''NET WEIGHT    : ''" and post = "'' Kg'' @ CRLF"]; simp)
  done

text \<open>A socket that connects is handed the buffer, and what is written stays written.\<close>

lemma send_handler_keeps_written:
  "\<exists>more. sock_written (snd (send_handler dat host prt (p0, c0) ev)) = sock_written c0 @ more"
  by (cases ev) simp_all

lemma send_fold_keeps_written:
  "\<exists>more. sock_written (snd (foldl (send_handler dat host prt) st script)) = sock_written (snd st) @ more"
proof (induction script arbitrary: st)
  case Nil
  then show ?case by simp
next
  case (Cons ev script)
  obtain m1 where m1: "sock_written (snd (send_handler dat host prt st ev)) = sock_written (snd st) @ m1"
    using send_handler_keeps_written[of dat host prt "fst st" "snd st" ev] by auto
  obtain m2 where "sock_written (snd (foldl (send_handler dat host prt) (send_handler dat host prt st ev) script))
      = sock_written (snd (send_handler dat host prt st ev)) @ m2"
    using Cons.IH[of "send_handler dat host prt st ev"] by auto
  then show ?case by (simp add: m1)
qed

lemma connected_copy_written:
  "take 1 (sock_written (conn_socket (connect_and_send dat host prt (Connect # evs)))) = [dat]"
proof -
  let ?st = "send_handler dat host prt (Pending, new_Socket\<lparr>sock_timeout := Some 10000\<rparr>) Connect"
  have first: "sock_written (snd ?st) = [dat]" by (simp add: new_Socket_def)
  obtain more where "sock_written (snd (foldl (send_handler dat host prt) ?st evs)) = sock_written (snd ?st) @ more"
    using send_fold_keeps_written[of dat host prt ?st evs] by auto
  then have "sock_written (conn_socket (connect_and_send dat host prt (Connect # evs))) = [dat] @ more"
    by (simp only: first connect_and_send_def sendRawToIPPrinter_def foldl.simps; simp)
  then show ?thesis by simp
qed

lemma send_copies_first_connection:
  "0 < n \<Longrightarrow>
     take 1 (fst (snd (send_copies n dat host prt scripts)))
       = [connect_and_send dat host prt (case scripts of [] \<Rightarrow> [] | x # _ \<Rightarrow> x)]"
  by (cases n) (auto simp: Let_def split: promise.splits prod.splits)

lemma raw_fallback_first_connection:
  "0 < copies \<Longrightarrow>
     take 1 (snd (raw_fallback js b host prt copies [] scripts))
       = [connect_and_send (buildRawPCL js b) host prt (case scripts of [] \<Rightarrow> [] | x # _ \<Rightarrow> x)]"
  using send_copies_first_connection[of "nat copies" "buildRawPCL js b" host prt scripts]
  by (auto simp: raw_fallback_def Let_def split: prod.splits promise.splits)

lemma refused_fails:
  "fails_with dat host prt refused ''IP Printer error: connect ECONNREFUSED 192.168.1.200:9100''"
  by (simp add: fails_with_def refused_def sendRawToIPPrinter_def new_Socket_def)

lemma printed_delivers: "delivers dat host prt printed"
  by (simp add: delivers_def printed_def sendRawToIPPrinter_def new_Socket_def)

text \<open>
  A copy of the rendered PDF that fails on its way to the printer is caught by the same
  \<open>catch\<close> as a failure of the renderer: the remaining PDF copies are dropped and the raw
  document is sent, once per requested copy.
\<close>

lemma printViaIP_pdf_copy_failure_falls_back:
  assumes "render html = Inr pdf" and "list_all (delivers pdf host prt) oks"
    and "length oks < nat copies" and "fails_with pdf host prt bad e"
  shows "printViaIP js render html b host prt copies (oks @ bad # rest)
           = raw_fallback js b host prt copies (map (connect_and_send pdf host prt) (oks @ [bad])) rest"
  using assms send_copies_first_failure[of pdf host prt oks "nat copies" bad e rest]
  by (simp add: printViaIP_def)

text \<open>
  C7 (as amended). In ip mode the document is sent once per requested copy, one
  connection after the other, and a copy counts as sent only when its socket has
  closed: when every copy is delivered the result names the path taken, \<open>ip_pdf\<close> or
  \<open>ip_raw\<close>, and the connections are exactly the requested copies. When a copy of the
  raw document fails on its way, the remaining copies are not sent, nothing is retried,
  and the dispatch is rejected with the error of the transport alone: no result and no
  method is returned.
\<close>

theorem C7_ip_copies_sequential_abort:
  "(renderP html = Inr pdf \<and> list_all (delivers pdf host prt) oksP \<and> length oksP = nat copies \<longrightarrow>
      printViaIP js renderP html b host prt copies (oksP @ restP)
        = (Fulfilled \<lparr>res_success = True, res_method = ''ip_pdf'', res_host = host, res_port = prt\<rparr>,
           map (connect_and_send pdf host prt) oksP))
   \<and> (renderR html = Inl err \<and> list_all (delivers (buildRawPCL js b) host prt) oksR
        \<and> length oksR = nat copies \<longrightarrow>
      printViaIP js renderR html b host prt copies (oksR @ restR)
        = (Fulfilled \<lparr>res_success = True, res_method = ''ip_raw'', res_host = host, res_port = prt\<rparr>,
           map (connect_and_send (buildRawPCL js b) host prt) oksR))
   \<and> (renderR html = Inl err \<and> list_all (delivers (buildRawPCL js b) host prt) oksF
        \<and> length oksF < nat copies \<and> fails_with (buildRawPCL js b) host prt bad e \<longrightarrow>
      printViaIP js renderR html b host prt copies (oksF @ bad # restF)
        = (Rejected e, map (connect_and_send (buildRawPCL js b) host prt) (oksF @ [bad])))
   \<and> (delivers dat host prt script \<longrightarrow> Close \<in> set script)"
proof (intro conjI impI)
  assume "renderP html = Inr pdf \<and> list_all (delivers pdf host prt) oksP \<and> length oksP = nat copies"
  then show "printViaIP js renderP html b host prt copies (oksP @ restP)
        = (Fulfilled \<lparr>res_success = True, res_method = ''ip_pdf'', res_host = host, res_port = prt\<rparr>,
           map (connect_and_send pdf host prt) oksP)"
    using send_copies_all_delivered[of pdf host prt oksP "nat copies" restP]
    by (simp add: printViaIP_def)
next
  assume "renderR html = Inl err \<and> list_all (delivers (buildRawPCL js b) host prt) oksR
        \<and> length oksR = nat copies"
  then show "printViaIP js renderR html b host prt copies (oksR @ restR)
        = (Fulfilled \<lparr>res_success = True, res_method = ''ip_raw'', res_host = host, res_port = prt\<rparr>,
           map (connect_and_send (buildRawPCL js b) host prt) oksR)"
    using send_copies_all_delivered[of "buildRawPCL js b" host prt oksR "nat copies" restR]
    by (simp add: printViaIP_def raw_fallback_def)
next
  assume "renderR html = Inl err \<and> list_all (delivers (buildRawPCL js b) host prt) oksF
        \<and> length oksF < nat copies \<and> fails_with (buildRawPCL js b) host prt bad e"
  then show "printViaIP js renderR html b host prt copies (oksF @ bad # restF)
        = (Rejected e, map (connect_and_send (buildRawPCL js b) host prt) (oksF @ [bad]))"
    using send_copies_first_failure[of "buildRawPCL js b" host prt oksF "nat copies" bad e restF]
    by (simp add: printViaIP_def raw_fallback_def)
next
  assume "delivers dat host prt script"
  then show "Close \<in> set script" by (rule delivers_closed)
qed

theorem C7_ip_copies_sequential_abort_witness:
  "printViaIP example_runtime working_renderer ''<html/>'' example_bill ''192.168.1.200'' 9100 2
       [printed, printed]
     = (Fulfilled \<lparr>res_success = True, res_method = ''ip_pdf'', res_host = ''192.168.1.200'',
                   res_port = 9100\<rparr>,
        map (connect_and_send ''%PDF-1.4 <html/>'' ''192.168.1.200'' 9100) [printed, printed])
   \<and> printViaIP example_runtime failing_renderer ''<html/>'' example_bill ''192.168.1.200'' 9100 2
       [printed, printed]
     = (Fulfilled \<lparr>res_success = True, res_method = ''ip_raw'', res_host = ''192.168.1.200'',
                   res_port = 9100\<rparr>,
        map (connect_and_send (buildRawPCL example_runtime example_bill) ''192.168.1.200'' 9100)
          [printed, printed])
   \<and> printViaIP example_runtime failing_renderer ''<html/>'' example_bill ''192.168.1.200'' 9100 3
       [printed, refused, printed]
     = (Rejected ''IP Printer error: connect ECONNREFUSED 192.168.1.200:9100'',
        map (connect_and_send (buildRawPCL example_runtime example_bill) ''192.168.1.200'' 9100)
          [printed, refused])
   \<and> Close \<in> set printed"
proof -
  note inst = C7_ip_copies_sequential_abort
    [where renderP = working_renderer and html = "''<html/>''" and pdf = "''%PDF-1.4 <html/>''"
       and host = "''192.168.1.200''" and prt = 9100 and js = example_runtime and b = example_bill
       and renderR = failing_renderer and err = "''wkhtmltopdf: not found''"
       and bad = refused and e = "''IP Printer error: connect ECONNREFUSED 192.168.1.200:9100''"
       and dat = "''x''" and script = printed]
  have two: "printViaIP example_runtime working_renderer ''<html/>'' example_bill ''192.168.1.200'' 9100 2
       [printed, printed]
     = (Fulfilled \<lparr>res_success = True, res_method = ''ip_pdf'', res_host = ''192.168.1.200'',
                   res_port = 9100\<rparr>,
        map (connect_and_send ''%PDF-1.4 <html/>'' ''192.168.1.200'' 9100) [printed, printed])
   \<and> printViaIP example_runtime failing_renderer ''<html/>'' example_bill ''192.168.1.200'' 9100 2
       [printed, printed]
     = (Fulfilled \<lparr>res_success = True, res_method = ''ip_raw'', res_host = ''192.168.1.200'',
                   res_port = 9100\<rparr>,
        map (connect_and_send (buildRawPCL example_runtime example_bill) ''192.168.1.200'' 9100)
          [printed, printed])
   \<and> Close \<in> set printed"
    using inst [where copies = 2 and oksP = "[printed, printed]" and restP = "[]"
        and oksR = "[printed, printed]" and restR = "[]" and oksF = "[printed]" and restF = "[]"]
      printed_delivers refused_fails
    by (simp add: working_renderer_def failing_renderer_def)
  have three: "printViaIP example_runtime failing_renderer ''<html/>'' example_bill ''192.168.1.200'' 9100 3
       [printed, refused, printed]
     = (Rejected ''IP Printer error: connect ECONNREFUSED 192.168.1.200:9100'',
        map (connect_and_send (buildRawPCL example_runtime example_bill) ''192.168.1.200'' 9100)
          [printed, refused])"
    using inst [where copies = 3 and oksP = "[printed, printed, printed]" and restP = "[]"
        and oksR = "[printed, printed, printed]" and restR = "[]" and oksF = "[printed]"
        and restF = "[printed]"]
      printed_delivers refused_fails
    by (simp add: working_renderer_def failing_renderer_def)
  from two three show ?thesis by simp
qed

text \<open>
  C7 as stated fails: with a renderer that fails and a printer that refuses the first of
  two copies of the raw document, the dispatch reports no method. Its promise is
  rejected with the message of the transport, after the one connection.
\<close>

theorem C7_no_method_reported_counterexample:
  "fst (printViaIP example_runtime failing_renderer ''<html/>'' example_bill ''192.168.1.200'' 9100 2
          [refused, printed])
     = Rejected ''IP Printer error: connect ECONNREFUSED 192.168.1.200:9100''
   \<and> map conn_events (snd (printViaIP example_runtime failing_renderer ''<html/>'' example_bill
          ''192.168.1.200'' 9100 2 [refused, printed])) = [refused]"
  using send_copies_first_failure
    [of "buildRawPCL example_runtime example_bill" "''192.168.1.200''" 9100 "[]" 2 refused
        "''IP Printer error: connect ECONNREFUSED 192.168.1.200:9100''" "[printed]"]
    refused_fails
  by (simp add: printViaIP_def raw_fallback_def failing_renderer_def connect_and_send_def)

text \<open>
  C8. When the renderer fails in an ip-mode dispatch, the raw control-code document is
  what is sent: a first connection is opened for it whenever a copy is requested, every
  connection carries that document and nothing else, and a socket that connects is
  handed it. When every requested copy is delivered the connections are exactly the
  requested copies and the result is \<open>success = true\<close> with method \<open>ip_raw\<close>, and no
  other result is ever returned. The document is framed by the printer control sequences
  and holds the fields of the bill, and it does not depend on the two camera images:
  whatever they hold, the bytes are the same.
\<close>

theorem C8_raw_fallback_without_images:
  "render html = Inl err \<longrightarrow>
     (\<forall>c \<in> set (snd (printViaIP js render html b host prt copies scripts)).
         set (sock_written (conn_socket c)) \<subseteq> {buildRawPCL js b})
     \<and> (\<forall>r. fst (printViaIP js render html b host prt copies scripts) = Fulfilled r \<longrightarrow>
            res_success r \<and> res_method r = ''ip_raw'')
     \<and> (0 < copies \<longrightarrow>
          take 1 (snd (printViaIP js render html b host prt copies scripts))
            = [connect_and_send (buildRawPCL js b) host prt (case scripts of [] \<Rightarrow> [] | x # _ \<Rightarrow> x)])
     \<and> (list_all (delivers (buildRawPCL js b) host prt) (take (nat copies) scripts)
          \<and> nat copies \<le> length scripts \<longrightarrow>
        printViaIP js render html b host prt copies scripts
          = (Fulfilled \<lparr>res_success = True, res_method = ''ip_raw'', res_host = host, res_port = prt\<rparr>,
             map (connect_and_send (buildRawPCL js b) host prt) (take (nat copies) scripts)))
     \<and> take 1 (sock_written (conn_socket (connect_and_send (buildRawPCL js b) host prt (Connect # evs))))
          = [buildRawPCL js b]
     \<and> buildRawPCL js (b\<lparr>camera1Image := cam1, camera2Image := cam2\<rparr>) = buildRawPCL js b
     \<and> prefix (ESC # ''%-12345X@PJL'' @ CRLF) (buildRawPCL js b)
     \<and> suffix (ESC # ''E'' @ ESC # ''%-12345X'') (buildRawPCL js b)
     \<and> sublist (vehicleNo b) (buildRawPCL js b)
     \<and> sublist (customer b) (buildRawPCL js b)
     \<and> sublist (material b) (buildRawPCL js b)
     \<and> sublist (num_str js (charges b)) (buildRawPCL js b)
     \<and> sublist (value_or_dashes js (weigh_value_of (grossWeight b))) (buildRawPCL js b)
     \<and> sublist (weigh_time_of js (grossWeight b)) (buildRawPCL js b)
     \<and> sublist (value_or_dashes js (weigh_value_of (tareWeight b))) (buildRawPCL js b)
     \<and> sublist (weigh_time_of js (tareWeight b)) (buildRawPCL js b)
     \<and> sublist (value_or_dashes js (netWeight b)) (buildRawPCL js b)"
proof (intro impI conjI ballI allI)
  fix c
  assume "render html = Inl err"
    and "c \<in> set (snd (printViaIP js render html b host prt copies scripts))"
  then show "set (sock_written (conn_socket c)) \<subseteq> {buildRawPCL js b}"
    using raw_fallback_written[of c js b host prt copies scripts] by (simp add: printViaIP_def)
next
  fix r
  assume "render html = Inl err"
    and "fst (printViaIP js render html b host prt copies scripts) = Fulfilled r"
  then have "r = \<lparr>res_success = True, res_method = ''ip_raw'', res_host = host, res_port = prt\<rparr>"
    using raw_fallback_method[of js b host prt copies "[]" scripts r] by (simp add: printViaIP_def)
  then show "res_success r" and "res_method r = ''ip_raw''" by simp_all
next
  assume "render html = Inl err" and "0 < copies"
  then show "take 1 (snd (printViaIP js render html b host prt copies scripts))
            = [connect_and_send (buildRawPCL js b) host prt (case scripts of [] \<Rightarrow> [] | x # _ \<Rightarrow> x)]"
    using raw_fallback_first_connection[of copies js b host prt scripts] by (simp add: printViaIP_def)
next
  assume r: "render html = Inl err"
    and ok: "list_all (delivers (buildRawPCL js b) host prt) (take (nat copies) scripts)
          \<and> nat copies \<le> length scripts"
  have "send_copies (nat copies) (buildRawPCL js b) host prt
          (take (nat copies) scripts @ drop (nat copies) scripts)
      = (Fulfilled (), map (connect_and_send (buildRawPCL js b) host prt) (take (nat copies) scripts),
         drop (nat copies) scripts)"
    using ok by (intro send_copies_all_delivered) simp_all
  then show "printViaIP js render html b host prt copies scripts
          = (Fulfilled \<lparr>res_success = True, res_method = ''ip_raw'', res_host = host, res_port = prt\<rparr>,
             map (connect_and_send (buildRawPCL js b) host prt) (take (nat copies) scripts))"
    using r by (simp add: printViaIP_def raw_fallback_def)
next
  show "take 1 (sock_written (conn_socket (connect_and_send (buildRawPCL js b) host prt (Connect # evs))))
          = [buildRawPCL js b]"
    by (rule connected_copy_written)
next
  show "buildRawPCL js (b\<lparr>camera1Image := cam1, camera2Image := cam2\<rparr>) = buildRawPCL js b"
    by (rule buildRawPCL_no_camera)
qed (simp_all only: buildRawPCL_framed buildRawPCL_fields)

lemma printed_written:
  "sock_written (conn_socket (connect_and_send dat host prt printed)) = [dat]"
  by (simp add: connect_and_send_def sendRawToIPPrinter_def printed_def new_Socket_def)

theorem C8_raw_fallback_without_images_witness:
  "failing_renderer ''<html/>'' = Inl ''wkhtmltopdf: not found''
   \<and> printViaIP example_runtime failing_renderer ''<html/>'' example_bill ''192.168.1.200'' 9100 2
            [printed, printed]
        = (Fulfilled \<lparr>res_success = True, res_method = ''ip_raw'', res_host = ''192.168.1.200'',
                     res_port = 9100\<rparr>,
           [connect_and_send (buildRawPCL example_runtime example_bill) ''192.168.1.200'' 9100 printed,
            connect_and_send (buildRawPCL example_runtime example_bill) ''192.168.1.200'' 9100 printed])
   \<and> map (\<lambda>c. sock_written (conn_socket c))
         (snd (printViaIP example_runtime failing_renderer ''<html/>'' example_bill
                 ''192.168.1.200'' 9100 2 [printed, printed]))
        = [[buildRawPCL example_runtime example_bill], [buildRawPCL example_runtime example_bill]]
   \<and> sublist ''TN01AB1234'' (buildRawPCL example_runtime example_bill)
   \<and> buildRawPCL example_runtime
        (example_bill\<lparr>camera1Image := Some ''JFIF'', camera2Image := Some ''Kg''\<rparr>)
        = buildRawPCL example_runtime example_bill"
proof -
  have fails: "failing_renderer ''<html/>'' = Inl ''wkhtmltopdf: not found''"
    by (simp add: failing_renderer_def)
  have ok: "list_all (delivers (buildRawPCL example_runtime example_bill) ''192.168.1.200'' 9100)
              (take (nat 2) [printed, printed]) \<and> nat 2 \<le> length [printed, printed]"
    using printed_delivers by simp
  have two: "take (nat 2) [printed, printed] = [printed, printed]" by simp
  have veh: "vehicleNo example_bill = ''TN01AB1234''" by (simp add: example_bill_def)
  note inst = C8_raw_fallback_without_images
    [where render = failing_renderer and html = "''<html/>''" and err = "''wkhtmltopdf: not found''"
       and js = example_runtime and b = example_bill and host = "''192.168.1.200''" and prt = 9100
       and copies = 2 and scripts = "[printed, printed]" and ?cam1.0 = "Some ''JFIF''"
       and ?cam2.0 = "Some ''Kg''" and evs = "[WriteDone, Close]"]
  from inst fails ok
  have res: "printViaIP example_runtime failing_renderer ''<html/>'' example_bill ''192.168.1.200'' 9100 2
            [printed, printed]
        = (Fulfilled \<lparr>res_success = True, res_method = ''ip_raw'', res_host = ''192.168.1.200'',
                     res_port = 9100\<rparr>,
           map (connect_and_send (buildRawPCL example_runtime example_bill) ''192.168.1.200'' 9100)
             (take (nat 2) [printed, printed]))"
    by blast
  from inst fails have sub: "sublist (vehicleNo example_bill) (buildRawPCL example_runtime example_bill)"
    and cam: "buildRawPCL example_runtime
        (example_bill\<lparr>camera1Image := Some ''JFIF'', camera2Image := Some ''Kg''\<rparr>)
        = buildRawPCL example_runtime example_bill"
    by blast+
  from res sub cam fails show ?thesis
    by (simp only: two veh list.map snd_conv printed_written; simp)
qed

subsection \<open>Facts about the probe\<close>

lemma probe_handler_settled:
  "p0 \<noteq> Pending \<Longrightarrow> fst (probe_handler host prt (p0, c0) ev) = p0"
  by (cases ev; cases p0) simp_all

lemma probe_fold_settled:
  "fst st \<noteq> Pending \<Longrightarrow> fst (foldl (probe_handler host prt) st script) = fst st"
proof (induction script arbitrary: st)
  case Nil
  then show ?case by simp
next
  case (Cons ev script)
  have "fst (probe_handler host prt st ev) = fst st"
    using probe_handler_settled[of "fst st" host prt "snd st" ev] Cons.prems by simp
  with Cons.IH[of "probe_handler host prt st ev"] Cons.prems show ?case by simp
qed

lemma probe_handler_never_rejected:
  "p0 \<noteq> Rejected e \<Longrightarrow> fst (probe_handler host prt (p0, c0) ev) \<noteq> Rejected e"
  by (cases ev; cases p0) simp_all

lemma probe_fold_never_rejected:
  "fst st \<noteq> Rejected e \<Longrightarrow> fst (foldl (probe_handler host prt) st script) \<noteq> Rejected e"
proof (induction script arbitrary: st)
  case Nil
  then show ?case by simp
next
  case (Cons ev script)
  have "fst (probe_handler host prt st ev) \<noteq> Rejected e"
    using probe_handler_never_rejected[of "fst st" e host prt "snd st" ev] Cons.prems by simp
  from Cons.IH[OF this] show ?case by simp
qed

lemma probe_handler_socket:
  "sock_written (snd (probe_handler host prt (p0, c0) ev)) = sock_written c0"
  "sock_timeout (snd (probe_handler host prt (p0, c0) ev)) = sock_timeout c0"
  by (cases ev; simp)+

lemma probe_fold_socket:
  "sock_written (snd (foldl (probe_handler host prt) st script)) = sock_written (snd st)
   \<and> sock_timeout (snd (foldl (probe_handler host prt) st script)) = sock_timeout (snd st)"
proof (induction script arbitrary: st)
  case Nil
  then show ?case by simp
next
  case (Cons ev script)
  have "sock_written (snd (probe_handler host prt st ev)) = sock_written (snd st)
      \<and> sock_timeout (snd (probe_handler host prt st ev)) = sock_timeout (snd st)"
    using probe_handler_socket[of host prt "fst st" "snd st" ev] by simp
  with Cons.IH[of "probe_handler host prt st ev"] show ?case by simp
qed

lemma testIPPrinter_connect_raises:
  "fst (testIPPrinter host prt (Some msg) script) = Rejected msg"
  by (simp add: testIPPrinter_def)

text \<open>
  C9 (as amended). Whenever the connection is attempted, the probe only ever resolves:
  its promise is never rejected. When the connection is refused (the first event of the
  socket is an error) it resolves to \<open>reachable = false\<close> with the message of the
  transport, unchanged, as its error; when the connection is unanswered (the first event
  is the timeout of the timer that the probe sets to 4000 milliseconds) it resolves to
  \<open>reachable = false\<close> with the error \<open>Timeout\<close>. Nothing is ever written to the socket.
\<close>

theorem C9_probe_reports_transport_error:
  "fst (testIPPrinter host prt None (Error m # rest))
      = Fulfilled \<lparr>reachable = False, probe_host = host, probe_port = prt, probe_error = Some m\<rparr>
   \<and> fst (testIPPrinter host prt None (Timeout # rest))
      = Fulfilled \<lparr>reachable = False, probe_host = host, probe_port = prt,
                   probe_error = Some ''Timeout''\<rparr>
   \<and> fst (testIPPrinter host prt None script) \<noteq> Rejected e
   \<and> sock_written (snd (testIPPrinter host prt thrown script)) = []
   \<and> sock_timeout (snd (testIPPrinter host prt thrown script)) = Some 4000"
proof -
  let ?s0 = "new_Socket\<lparr>sock_timeout := Some 4000\<rparr>"
  have refused: "fst (testIPPrinter host prt None (Error m # rest))
        = Fulfilled \<lparr>reachable = False, probe_host = host, probe_port = prt, probe_error = Some m\<rparr>"
    using probe_fold_settled[of "probe_handler host prt (Pending, ?s0) (Error m)" host prt rest]
    by (simp add: testIPPrinter_def new_Socket_def)
  have unanswered: "fst (testIPPrinter host prt None (Timeout # rest))
        = Fulfilled \<lparr>reachable = False, probe_host = host, probe_port = prt,
                     probe_error = Some ''Timeout''\<rparr>"
    using probe_fold_settled[of "probe_handler host prt (Pending, ?s0) Timeout" host prt rest]
    by (simp add: testIPPrinter_def new_Socket_def)
  have never: "fst (testIPPrinter host prt None script) \<noteq> Rejected e"
    using probe_fold_never_rejected[of "(Pending, ?s0)" e host prt script]
    by (simp add: testIPPrinter_def)
  have sock: "sock_written (snd (testIPPrinter host prt thrown script)) = []
      \<and> sock_timeout (snd (testIPPrinter host prt thrown script)) = Some 4000"
    using probe_fold_socket[of host prt "(Pending, ?s0)" script]
    by (cases thrown) (simp_all add: testIPPrinter_def new_Socket_def)
  from refused unanswered never sock show ?thesis by simp
qed

theorem C9_probe_reports_transport_error_witness:
  "fst (testIPPrinter ''127.0.0.1'' 9 None [Error ''connect ECONNREFUSED 127.0.0.1:9'', Close])
        = Fulfilled \<lparr>reachable = False, probe_host = ''127.0.0.1'', probe_port = 9,
                     probe_error = Some ''connect ECONNREFUSED 127.0.0.1:9''\<rparr>
   \<and> fst (testIPPrinter ''127.0.0.1'' 9 None [Timeout, Close])
        = Fulfilled \<lparr>reachable = False, probe_host = ''127.0.0.1'', probe_port = 9,
                     probe_error = Some ''Timeout''\<rparr>
   \<and> sock_written (snd (testIPPrinter ''127.0.0.1'' 9 None [Connect, Close])) = []
   \<and> sock_timeout (snd (testIPPrinter ''127.0.0.1'' 9 None [Connect, Close])) = Some 4000"
  using C9_probe_reports_transport_error
    [where host = "''127.0.0.1''" and prt = 9 and m = "''connect ECONNREFUSED 127.0.0.1:9''"
       and rest = "[Close]" and script = "[Connect, Close]" and thrown = None]
  by simp

text \<open>
  C9 as stated fails: the error of the result is the message of the transport's error
  as it comes, and for an error whose message is empty the probe resolves with an
  empty error string.
\<close>

theorem C9_empty_error_counterexample:
  "fst (testIPPrinter ''127.0.0.1'' 9 None [Error [], Close])
     = Fulfilled \<lparr>reachable = False, probe_host = ''127.0.0.1'', probe_port = 9,
                  probe_error = Some []\<rparr>"
  by (simp add: testIPPrinter_def new_Socket_def)

subsection \<open>Subscribing\<close>

text \<open>
  C10. The synthetic current-state event that \<open>addWSClient\<close> sends to a subscriber on
  registration carries \<open>stable = false\<close> whatever the stability buffer holds, together
  with the current weight, the last stable weight and the simulation flag; it is sent
  to that subscriber at once, and the subscriber is registered.
\<close>

theorem C10_subscribe_event_never_stable:
  "outbox (addWSClient s ws) =
     outbox s @ [(ws, WeightMsg (currentWeight s) False (stableWeight s) (isSimulation s) (clock s))]
   \<and> msg_stable (subscribe_msg s) = False
   \<and> ws \<in> set (wsClients (addWSClient s ws))"
  by (simp add: addWSClient_def subscribe_msg_def)

theorem C10_subscribe_event_never_stable_witness:
  "buffer_isStable (weightBuffer (updateWeight plateau_state 39169))
   \<and> outbox (addWSClient (updateWeight plateau_state 39169) 7) = [(7, WeightMsg 39169 False 39170 False 0)]"
proof -
  let ?s = "updateWeight plateau_state 39169"
  have st: "?s = constructor\<lparr>currentWeight := 39169,
      weightBuffer := [39170, 39172, 39168, 39171, 39169], stableWeight := 39170\<rparr>"
    by (simp add: plateau_state_eq constructor_def filter_defs)
  have "buffer_isStable (weightBuffer ?s)"
    by (simp add: st buffer_isStable_def buffer_avg_def fadd_def fsub_def fdiv_def)
  moreover have "outbox (addWSClient ?s 7) = [(7, WeightMsg 39169 False 39170 False 0)]"
    using C10_subscribe_event_never_stable [of ?s 7]
    by (simp add: st constructor_def)
  ultimately show ?thesis by simp
qed

end
